theory Spec2Isabelle
  imports Main
begin

section \<open>JavaScript values\<close>

text \<open>
  The values the extension's code handles.  Numbers are the integral ones (asset amounts,
  balances and millisecond timestamps are whole numbers) together with \<open>NaN\<close>, which the
  code produces through \<open>parseFloat\<close> and arithmetic on missing fields; fractional numbers
  and the infinities are not represented.  An object stored in a field is held by reference
  (\<open>JRef\<close>) and found in a heap; the records kept in the store's collections are property
  maps.
\<close>

datatype jsval =
    JUndefined
  | JNull
  | JBool bool
  | JNum int
  | JNaN
  | JStr string
  | JRef nat

type_synonym obj = "string \<rightharpoonup> jsval"

type_synonym heap = "nat \<rightharpoonup> obj"

text \<open>Truthiness, as used by \<open>if (x)\<close>, \<open>!x\<close>, \<open>x && y\<close> and \<open>x || y\<close>.\<close>

fun truthy :: "jsval \<Rightarrow> bool" where
  "truthy JUndefined = False"
| "truthy JNull = False"
| "truthy (JBool b) = b"
| "truthy (JNum n) = (n \<noteq> 0)"
| "truthy JNaN = False"
| "truthy (JStr s) = (s \<noteq> [])"
| "truthy (JRef r) = True"

text \<open>\<open>a === b\<close>: equality of primitives and identity of references; \<open>NaN\<close> equals nothing.\<close>

definition strict_eq :: "jsval \<Rightarrow> jsval \<Rightarrow> bool" where
  "strict_eq a b = (a = b \<and> a \<noteq> JNaN)"

text \<open>\<open>a || b\<close> on values.\<close>

definition js_or :: "jsval \<Rightarrow> jsval \<Rightarrow> jsval" where
  "js_or a b = (if truthy a then a else b)"

text \<open>Reading a property: a missing property reads as \<open>undefined\<close>.\<close>

definition getp :: "obj \<Rightarrow> string \<Rightarrow> jsval" where
  "getp ob k = (case ob k of None \<Rightarrow> JUndefined | Some v \<Rightarrow> v)"

text \<open>
  Reading a property of a value that is known to be truthy: a reference is followed into
  the heap, and a primitive has none of the properties the code asks for.
\<close>

definition props :: "heap \<Rightarrow> jsval \<Rightarrow> obj" where
  "props h v = (case v of JRef r \<Rightarrow> (case h r of Some ob \<Rightarrow> ob | None \<Rightarrow> Map.empty)
                | _ \<Rightarrow> Map.empty)"

definition field :: "heap \<Rightarrow> jsval \<Rightarrow> string \<Rightarrow> jsval" where
  "field h v k = getp (props h v) k"

subsection \<open>Numbers\<close>

definition is_digit :: "char \<Rightarrow> bool" where
  "is_digit c = (c \<in> set ''0123456789'')"

definition digit_val :: "char \<Rightarrow> nat" where
  "digit_val c = of_char c - 48"

definition parse_digits :: "string \<Rightarrow> nat" where
  "parse_digits ds = foldl (\<lambda>a c. 10 * a + digit_val c) 0 ds"

text \<open>
  \<open>parseFloat\<close> on a string: leading blanks are skipped, an optional sign is read, then the
  longest run of digits; anything after it is ignored, and no digit at all gives \<open>NaN\<close>.
  (A fraction or an exponent after the digits would give a non-integral number, which is
  outside the values represented here.)
\<close>

definition parseFloat_str :: "string \<Rightarrow> jsval" where
  "parseFloat_str s =
     (let t = dropWhile (\<lambda>c. c = CHR '' '') s;
          neg = (t \<noteq> [] \<and> hd t = CHR ''-'');
          r = (if t \<noteq> [] \<and> (hd t = CHR ''-'' \<or> hd t = CHR ''+'') then tl t else t);
          ds = takeWhile is_digit r
      in if ds = [] then JNaN
         else JNum (if neg then - int (parse_digits ds) else int (parse_digits ds)))"

text \<open>\<open>parseFloat(x)\<close> converts its argument to a string first, so only numbers and
  numeric strings give a number.\<close>

fun parseFloat :: "jsval \<Rightarrow> jsval" where
  "parseFloat (JNum n) = JNum n"
| "parseFloat (JStr s) = parseFloat_str s"
| "parseFloat v = JNaN"

text \<open>\<open>a - b\<close> and \<open>a <= b\<close> on numbers; every comparison with \<open>NaN\<close> is false.\<close>

fun js_sub :: "jsval \<Rightarrow> jsval \<Rightarrow> jsval" where
  "js_sub (JNum a) (JNum b) = JNum (a - b)"
| "js_sub a b = JNaN"

fun js_le :: "jsval \<Rightarrow> jsval \<Rightarrow> bool" where
  "js_le (JNum a) (JNum b) = (a \<le> b)"
| "js_le a b = False"

section \<open>Asset service: the receivable ceiling\<close>

text \<open>
  \<open>AssetService.getMaxReceivableAmount(asset)\<close> (asset.service.js):
  zero without an asset or without channel information, otherwise capacity minus local
  balance when both are defined.
\<close>

definition getMaxReceivableAmount :: "heap \<Rightarrow> jsval \<Rightarrow> jsval" where
  "getMaxReceivableAmount h asset =
     (if \<not> truthy asset \<or> \<not> truthy (field h asset ''channel_info'') then JNum 0
      else let channelInfo = field h asset ''channel_info'' in
        if field h channelInfo ''capacity'' \<noteq> JUndefined
           \<and> field h channelInfo ''local_balance'' \<noteq> JUndefined
        then let totalCapacity = parseFloat (field h channelInfo ''capacity'');
                 localBalance = parseFloat (field h channelInfo ''local_balance'')
             in js_sub totalCapacity localBalance
        else JNum 0)"

text \<open>
  The computed properties \<open>maxInvoiceAmount\<close> and \<open>isInvoiceAmountValid\<close> of the page
  (index.js), as functions of the dialog's selected asset and of the amount in its form.
\<close>

definition maxInvoiceAmount :: "heap \<Rightarrow> jsval \<Rightarrow> jsval" where
  "maxInvoiceAmount h selectedAsset =
     (if \<not> truthy selectedAsset then JNum 0
      else getMaxReceivableAmount h selectedAsset)"

definition isInvoiceAmountValid :: "heap \<Rightarrow> jsval \<Rightarrow> jsval \<Rightarrow> bool" where
  "isInvoiceAmountValid h selectedAsset amount =
     (if \<not> truthy selectedAsset then False
      else js_le (parseFloat amount) (maxInvoiceAmount h selectedAsset))"

text \<open>The asset of the specification's example: capacity 1000, local balance 400.\<close>

definition example_heap :: heap where
  "example_heap =
     [0 \<mapsto> [''asset_id'' \<mapsto> JStr ''a1'', ''channel_info'' \<mapsto> JRef 1],
      1 \<mapsto> [''capacity'' \<mapsto> JNum 1000, ''local_balance'' \<mapsto> JNum 400]]"

section \<open>The reconciliation store (store.js)\<close>

text \<open>
  \<open>taprootStore\<close> is an object with the properties \<open>state\<close> (the reactive state),
  \<open>getters\<close> and \<open>actions\<close>.  The three collections of the state are arrays of records.
\<close>

record store =
  assets :: "obj list"
  assetsLoading :: jsval
  invoices :: "obj list"
  payments :: "obj list"
  transactionsLoading :: jsval
  filters :: obj
  websocketStatus :: obj
  currentWallet :: jsval

text \<open>\<open>Array.prototype.findIndex\<close>: the first index whose element satisfies the predicate;
  \<open>None\<close> stands for the result \<open>-1\<close>.\<close>

fun findIndex :: "('a \<Rightarrow> bool) \<Rightarrow> 'a list \<Rightarrow> nat option" where
  "findIndex P [] = None"
| "findIndex P (x # xs) = (if P x then Some 0 else map_option Suc (findIndex P xs))"

text \<open>
  Every action reaches the state as \<open>this.state\<close> and begins with a guard such as
  \<open>if (!this.state || !this.state.invoices) return\<close>.  What \<open>this\<close> is depends on the
  call: in \<open>taprootStore.actions.addInvoice(invoice)\<close>, the form of every call in the
  repository, it is the \<open>actions\<close> object, which has no property \<open>state\<close>; called on the
  store object itself the action would find the state.  The receiver is a parameter of
  each action, and \<open>this_state\<close> is what \<open>this.state\<close> evaluates to (\<open>None\<close> for
  \<open>undefined\<close>).  The second half of the guards never fires: the collections are arrays,
  which are truthy.
\<close>

datatype receiver = ActionsObject | StoreObject

definition this_state :: "receiver \<Rightarrow> store \<Rightarrow> store option" where
  "this_state this s = (case this of ActionsObject \<Rightarrow> None | StoreObject \<Rightarrow> Some s)"

text \<open>
  The actions write into the object they are given (\<open>invoice._isNew = true\<close>,
  \<open>changes._statusChanged = true\<close>) before storing it, so each action returns the new
  store together with its argument as the call leaves it.  The object spread
  \<open>{...a, ...b}\<close> is \<open>a ++ b\<close>.
\<close>

definition addInvoice :: "receiver \<Rightarrow> store \<Rightarrow> obj \<Rightarrow> store \<times> obj" where
  "addInvoice this s0 invoice =
     (case this_state this s0 of
        None \<Rightarrow> (s0, invoice)
      | Some s \<Rightarrow>
     (case findIndex (\<lambda>i. strict_eq (getp i ''id'') (getp invoice ''id'')) (invoices s) of
        Some index \<Rightarrow>
          let invoice' =
                (if \<not> strict_eq (getp (invoices s ! index) ''status'') (getp invoice ''status'')
                 then invoice(''_previousStatus'' \<mapsto> getp (invoices s ! index) ''status'',
                              ''_statusChanged'' \<mapsto> JBool True)
                 else invoice)
          in (s\<lparr>invoices := (invoices s)[index := invoice']\<rparr>, invoice')
      | None \<Rightarrow>
          let invoice' = invoice(''_isNew'' \<mapsto> JBool True)
          in (s\<lparr>invoices := invoice' # invoices s\<rparr>, invoice')))"

definition updateInvoice :: "receiver \<Rightarrow> store \<Rightarrow> jsval \<Rightarrow> obj \<Rightarrow> store \<times> obj" where
  "updateInvoice this s0 invoiceId changes =
     (case this_state this s0 of
        None \<Rightarrow> (s0, changes)
      | Some s \<Rightarrow>
     (case findIndex (\<lambda>i. strict_eq (getp i ''id'') invoiceId) (invoices s) of
        Some index \<Rightarrow>
          let changes' =
                (if truthy (getp changes ''status'')
                    \<and> \<not> strict_eq (getp (invoices s ! index) ''status'') (getp changes ''status'')
                 then changes(''_previousStatus'' \<mapsto> getp (invoices s ! index) ''status'',
                              ''_statusChanged'' \<mapsto> JBool True)
                 else changes)
          in (s\<lparr>invoices := (invoices s)[index := (invoices s ! index) ++ changes']\<rparr>, changes')
      | None \<Rightarrow> (s, changes)))"

definition addPayment :: "receiver \<Rightarrow> store \<Rightarrow> obj \<Rightarrow> store \<times> obj" where
  "addPayment this s0 payment =
     (case this_state this s0 of
        None \<Rightarrow> (s0, payment)
      | Some s \<Rightarrow>
     (case findIndex (\<lambda>p. strict_eq (getp p ''id'') (getp payment ''id'')) (payments s) of
        Some index \<Rightarrow>
          let payment' =
                (if \<not> strict_eq (getp (payments s ! index) ''status'') (getp payment ''status'')
                 then payment(''_previousStatus'' \<mapsto> getp (payments s ! index) ''status'',
                              ''_statusChanged'' \<mapsto> JBool True)
                 else payment)
          in (s\<lparr>payments := (payments s)[index := payment']\<rparr>, payment')
      | None \<Rightarrow>
          let payment' = payment(''_isNew'' \<mapsto> JBool True)
          in (s\<lparr>payments := payment' # payments s\<rparr>, payment')))"

definition updatePayment :: "receiver \<Rightarrow> store \<Rightarrow> jsval \<Rightarrow> obj \<Rightarrow> store \<times> obj" where
  "updatePayment this s0 paymentId changes =
     (case this_state this s0 of
        None \<Rightarrow> (s0, changes)
      | Some s \<Rightarrow>
     (case findIndex (\<lambda>p. strict_eq (getp p ''id'') paymentId) (payments s) of
        Some index \<Rightarrow>
          let changes' =
                (if truthy (getp changes ''status'')
                    \<and> \<not> strict_eq (getp (payments s ! index) ''status'') (getp changes ''status'')
                 then changes(''_previousStatus'' \<mapsto> getp (payments s ! index) ''status'',
                              ''_statusChanged'' \<mapsto> JBool True)
                 else changes)
          in (s\<lparr>payments := (payments s)[index := (payments s ! index) ++ changes']\<rparr>, changes')
      | None \<Rightarrow> (s, changes)))"

definition updateAsset :: "receiver \<Rightarrow> store \<Rightarrow> jsval \<Rightarrow> obj \<Rightarrow> store" where
  "updateAsset this s0 assetId changes =
     (case this_state this s0 of
        None \<Rightarrow> s0
      | Some s \<Rightarrow>
     (case findIndex (\<lambda>a. strict_eq (getp a ''asset_id'') assetId) (assets s) of
        Some index \<Rightarrow> s\<lparr>assets := (assets s)[index := (assets s ! index) ++ changes]\<rparr>
      | None \<Rightarrow> s))"

definition setWebsocketStatus :: "receiver \<Rightarrow> store \<Rightarrow> obj \<Rightarrow> store" where
  "setWebsocketStatus this s0 status =
     (case this_state this s0 of
        None \<Rightarrow> s0
      | Some s \<Rightarrow> s\<lparr>websocketStatus := websocketStatus s ++ status\<rparr>)"

text \<open>The store as the page loads it (the initial value of \<open>Vue.reactive\<close>).\<close>

definition initial_store :: store where
  "initial_store =
     \<lparr>assets = [], assetsLoading = JBool False, invoices = [], payments = [],
      transactionsLoading = JBool False,
      filters = [''direction'' \<mapsto> JStr ''all'', ''status'' \<mapsto> JStr ''all'',
                 ''searchText'' \<mapsto> JStr [], ''dateFrom'' \<mapsto> JNull, ''dateTo'' \<mapsto> JNull],
      websocketStatus = [''connected'' \<mapsto> JBool False, ''reconnecting'' \<mapsto> JBool False,
                         ''fallbackPolling'' \<mapsto> JBool False],
      currentWallet = JNull\<rparr>"

text \<open>
  The markers \<open>_isNew\<close>, \<open>_statusChanged\<close> and \<open>_previousStatus\<close> are presentation
  metadata; two stores are the same up to markers when they agree after these three fields
  are removed from every invoice and payment.
\<close>

definition markers :: "string set" where
  "markers = {''_isNew'', ''_statusChanged'', ''_previousStatus''}"

definition strip_markers :: "obj \<Rightarrow> obj" where
  "strip_markers ob = (\<lambda>k. if k \<in> markers then None else ob k)"

definition same_up_to_markers :: "store \<Rightarrow> store \<Rightarrow> bool" where
  "same_up_to_markers s t =
     (map strip_markers (invoices s) = map strip_markers (invoices t)
      \<and> map strip_markers (payments s) = map strip_markers (payments t)
      \<and> assets s = assets t \<and> assetsLoading s = assetsLoading t
      \<and> transactionsLoading s = transactionsLoading t \<and> filters s = filters t
      \<and> websocketStatus s = websocketStatus t \<and> currentWallet s = currentWallet t)"

text \<open>The changes object as \<open>updateInvoice\<close> and \<open>updatePayment\<close> leave it when the
  record found is \<open>r\<close>.\<close>

definition mark :: "obj \<Rightarrow> obj \<Rightarrow> obj" where
  "mark r changes =
     (if truthy (getp changes ''status'') \<and> \<not> strict_eq (getp r ''status'') (getp changes ''status'')
      then changes(''_previousStatus'' \<mapsto> getp r ''status'', ''_statusChanged'' \<mapsto> JBool True)
      else changes)"

text \<open>Example records and states.\<close>

definition pending_invoice :: obj where
  "pending_invoice = [''id'' \<mapsto> JStr ''inv1'', ''status'' \<mapsto> JStr ''pending'']"

definition paid_changes :: obj where
  "paid_changes = [''status'' \<mapsto> JStr ''paid'']"

text \<open>A state of the store that holds the pending invoice.\<close>

definition stored_pending :: store where
  "stored_pending = initial_store\<lparr>invoices := [pending_invoice]\<rparr>"

section \<open>The live-update channel manager (websocket.manager.js)\<close>

text \<open>
  \<open>WebSocketManager\<close> keeps one socket per channel, a shared reconnect counter, the handle
  of the reconnect timer and the handle of the polling interval.  Its record holds the
  manager's \<open>connections\<close>, \<open>config\<close> and \<open>state\<close> objects together with the part of the
  browser it acts on: the pending timeouts, the running intervals, the number of
  \<open>setTimeout\<close> and \<open>setInterval\<close> calls made so far (the next handle; handles are
  positive, hence truthy) and the store whose action is called with the connection
  status.  A slot of
  \<open>connections\<close> is \<open>null\<close> (\<open>None\<close>) or holds a socket, of which only the
  \<open>readyState\<close> matters.  The message handlers and the refresh calls do not touch any of
  this and are left out.
\<close>

datatype channel = Invoices | Payments | Balances

datatype ready_state = CONNECTING | OPEN | CLOSING | CLOSED

record manager =
  conn :: "channel \<Rightarrow> ready_state option"
  reconnectDelay :: nat
  maxReconnectAttempts :: nat
  connected :: bool
  reconnectAttempts :: nat
  reconnectTimeout :: "nat option"
  fallbackPolling :: bool
  pollingInterval :: "nat option"
  userId :: jsval
  timers :: "nat set"
  intervals :: "nat set"
  setTimeoutCalls :: nat
  setIntervalCalls :: nat
  the_store :: store

definition initial_manager :: manager where
  "initial_manager =
     \<lparr>conn = (\<lambda>ch. None), reconnectDelay = 5000, maxReconnectAttempts = 5,
      connected = False, reconnectAttempts = 0, reconnectTimeout = None,
      fallbackPolling = False, pollingInterval = None, userId = JNull,
      timers = {}, intervals = {}, setTimeoutCalls = 0, setIntervalCalls = 0,
      the_store = initial_store\<rparr>"

text \<open>\<open>Object.values(this.connections).every(conn => conn === null)\<close>\<close>

definition all_down :: "manager \<Rightarrow> bool" where
  "all_down m = (conn m Invoices = None \<and> conn m Payments = None \<and> conn m Balances = None)"

text \<open>\<open>_updateStoreConnectionStatus(status)\<close> calls
  \<open>window.taprootStore.actions.setWebsocketStatus(status)\<close>: the action runs on the
  \<open>actions\<close> object.\<close>

definition updateStoreConnectionStatus :: "obj \<Rightarrow> manager \<Rightarrow> manager" where
  "updateStoreConnectionStatus status m =
     m\<lparr>the_store := setWebsocketStatus ActionsObject (the_store m) status\<rparr>"

text \<open>\<open>clearTimeout\<close>, \<open>setTimeout\<close>, \<open>clearInterval\<close> and \<open>setInterval\<close> on the browser part.\<close>

definition clearTimeout :: "nat \<Rightarrow> manager \<Rightarrow> manager" where
  "clearTimeout t m = m\<lparr>timers := timers m - {t}\<rparr>"

definition clearInterval :: "nat \<Rightarrow> manager \<Rightarrow> manager" where
  "clearInterval t m = m\<lparr>intervals := intervals m - {t}\<rparr>"

definition scheduleReconnect :: "manager \<Rightarrow> manager" where
  "scheduleReconnect m0 =
     (let m1 = (case reconnectTimeout m0 of
                  Some t \<Rightarrow> (clearTimeout t m0)\<lparr>reconnectTimeout := None\<rparr>
                | None \<Rightarrow> m0)
      in if reconnectAttempts m1 \<ge> maxReconnectAttempts m1
         then updateStoreConnectionStatus
                [''reconnecting'' \<mapsto> JBool False, ''fallbackPolling'' \<mapsto> JBool True] m1
         else
           let m2 = m1\<lparr>reconnectAttempts := reconnectAttempts m1 + 1\<rparr>;
               m3 = updateStoreConnectionStatus
                      [''reconnecting'' \<mapsto> JBool True,
                       ''reconnectAttempts'' \<mapsto> JNum (int (reconnectAttempts m2))] m2;
               t = setTimeoutCalls m3 + 1
           in m3\<lparr>setTimeoutCalls := t, timers := insert t (timers m3),
                  reconnectTimeout := Some t\<rparr>)"

definition startFallbackPolling :: "manager \<Rightarrow> manager" where
  "startFallbackPolling m0 =
     (if fallbackPolling m0 \<or> pollingInterval m0 \<noteq> None then m0
      else
        let m1 = m0\<lparr>fallbackPolling := True\<rparr>;
            m2 = updateStoreConnectionStatus [''fallbackPolling'' \<mapsto> JBool True] m1;
            t = setIntervalCalls m2 + 1
        in m2\<lparr>setIntervalCalls := t, intervals := insert t (intervals m2),
               pollingInterval := Some t\<rparr>)"

definition stopFallbackPolling :: "manager \<Rightarrow> manager" where
  "stopFallbackPolling m0 =
     (let m1 = (case pollingInterval m0 of
                  Some t \<Rightarrow> (clearInterval t m0)\<lparr>pollingInterval := None\<rparr>
                | None \<Rightarrow> m0);
          m2 = m1\<lparr>fallbackPolling := False\<rparr>
      in updateStoreConnectionStatus [''fallbackPolling'' \<mapsto> JBool False] m2)"

definition handleConnectionClose :: "channel \<Rightarrow> manager \<Rightarrow> manager" where
  "handleConnectionClose type m0 =
     (let m1 = m0\<lparr>conn := (conn m0)(type := None)\<rparr>
      in if all_down m1
         then
           let m2 = m1\<lparr>connected := False\<rparr>;
               m3 = updateStoreConnectionStatus
                      [''connected'' \<mapsto> JBool False,
                       ''reconnecting'' \<mapsto> JBool (reconnectTimeout m2 \<noteq> None)] m2;
               m4 = scheduleReconnect m3
           in startFallbackPolling m4
         else m1)"

text \<open>
  \<open>_handleConnectionError\<close> first closes the socket if it is neither closed nor closing;
  that only changes the socket, which the next statement drops from its slot.
\<close>

definition handleConnectionError :: "channel \<Rightarrow> manager \<Rightarrow> manager" where
  "handleConnectionError type m0 =
     (let m1 = m0\<lparr>conn := (conn m0)(type := None)\<rparr>
      in if all_down m1
         then
           let m2 = m1\<lparr>connected := False\<rparr>;
               m3 = updateStoreConnectionStatus
                      [''connected'' \<mapsto> JBool False, ''reconnecting'' \<mapsto> JBool True] m2;
               m4 = scheduleReconnect m3
           in startFallbackPolling m4
         else m1)"

definition closeAll :: "manager \<Rightarrow> manager" where
  "closeAll m0 =
     (let m1 = m0\<lparr>conn := (\<lambda>ch. None)\<rparr>;
          m2 = (case reconnectTimeout m1 of
                  Some t \<Rightarrow> (clearTimeout t m1)\<lparr>reconnectTimeout := None\<rparr>
                | None \<Rightarrow> m1);
          m3 = stopFallbackPolling m2;
          m4 = m3\<lparr>connected := False\<rparr>
      in updateStoreConnectionStatus
           [''connected'' \<mapsto> JBool False, ''reconnecting'' \<mapsto> JBool False,
            ''fallbackPolling'' \<mapsto> JBool False] m4)"

text \<open>
  \<open>_connectInvoices\<close>, \<open>_connectPayments\<close> and \<open>_connectBalances\<close> are the same function up
  to the channel.  \<open>new WebSocket(url)\<close> either returns a socket, which starts in state
  \<open>CONNECTING\<close>, or throws, and then the \<open>catch\<close> block calls the error handler; \<open>ok\<close> says
  for each channel which of the two happens.
\<close>

definition connectChannel :: "(channel \<Rightarrow> bool) \<Rightarrow> channel \<Rightarrow> manager \<Rightarrow> manager" where
  "connectChannel ok type m =
     (if \<not> truthy (userId m) then m
      else if ok type then m\<lparr>conn := (conn m)(type := Some CONNECTING)\<rparr>
      else handleConnectionError type m)"

definition connect :: "(channel \<Rightarrow> bool) \<Rightarrow> manager \<Rightarrow> manager" where
  "connect ok m0 =
     (let m1 = closeAll m0;
          m2 = m1\<lparr>reconnectAttempts := 0\<rparr>;
          m3 = connectChannel ok Invoices m2;
          m4 = connectChannel ok Payments m3;
          m5 = connectChannel ok Balances m4;
          m6 = m5\<lparr>connected := True\<rparr>
      in updateStoreConnectionStatus
           [''connected'' \<mapsto> JBool True, ''reconnecting'' \<mapsto> JBool False,
            ''fallbackPolling'' \<mapsto> JBool False] m6)"

definition initialize :: "jsval \<Rightarrow> (channel \<Rightarrow> bool) \<Rightarrow> manager \<Rightarrow> manager" where
  "initialize uid ok m =
     (if \<not> truthy uid then m else connect ok (m\<lparr>userId := uid\<rparr>))"

definition destroy :: "manager \<Rightarrow> manager" where
  "destroy m = (closeAll m)\<lparr>userId := JNull, reconnectAttempts := 0\<rparr>"

text \<open>The callback given to \<open>setTimeout\<close> by \<open>_scheduleReconnect\<close>, run when timer \<open>t\<close> fires.\<close>

definition reconnectTimerFired :: "nat \<Rightarrow> (channel \<Rightarrow> bool) \<Rightarrow> manager \<Rightarrow> manager" where
  "reconnectTimerFired t ok m0 =
     (let m1 = m0\<lparr>timers := timers m0 - {t}\<rparr>;
          m2 = connect ok m1
      in m2\<lparr>reconnectTimeout := None\<rparr>)"

definition isConnected :: "manager \<Rightarrow> channel \<Rightarrow> bool" where
  "isConnected m type = (case conn m type of None \<Rightarrow> False | Some rs \<Rightarrow> rs = OPEN)"

definition isFullyConnected :: "manager \<Rightarrow> bool" where
  "isFullyConnected m =
     (isConnected m Invoices \<and> isConnected m Payments \<and> isConnected m Balances)"

text \<open>
  What can happen to the manager: the page calls \<open>initialize\<close>, \<open>connect\<close>, \<open>closeAll\<close> or
  \<open>destroy\<close>; a socket opens, closes or fails; a pending reconnect timer fires.
\<close>

datatype event =
    Initialize jsval "channel \<Rightarrow> bool"
  | Connect "channel \<Rightarrow> bool"
  | CloseAll
  | Destroy
  | SocketOpened channel
  | SocketClosed channel
  | SocketError channel
  | TimerFired nat "channel \<Rightarrow> bool"

fun enabled :: "event \<Rightarrow> manager \<Rightarrow> bool" where
  "enabled (TimerFired t ok) m = (t \<in> timers m)"
| "enabled (SocketOpened ch) m = (conn m ch = Some CONNECTING)"
| "enabled e m = True"

fun step :: "event \<Rightarrow> manager \<Rightarrow> manager" where
  "step (Initialize uid ok) m = initialize uid ok m"
| "step (Connect ok) m = connect ok m"
| "step CloseAll m = closeAll m"
| "step Destroy m = destroy m"
| "step (SocketOpened ch) m = m\<lparr>conn := (conn m)(ch := Some OPEN)\<rparr>"
| "step (SocketClosed ch) m = handleConnectionClose ch m"
| "step (SocketError ch) m = handleConnectionError ch m"
| "step (TimerFired t ok) m = reconnectTimerFired t ok m"

text \<open>Running a sequence of events; an event that cannot happen in the current state is skipped.\<close>

fun run :: "event list \<Rightarrow> manager \<Rightarrow> manager" where
  "run [] m = m"
| "run (e # es) m = run es (if enabled e m then step e m else m)"

inductive reachable :: "manager \<Rightarrow> bool" where
  reachable_initial: "reachable initial_manager"
| reachable_step: "reachable m \<Longrightarrow> enabled e m \<Longrightarrow> reachable (step e m)"




text \<open>The server goes away after the page has connected: the three sockets close.\<close>

definition all_ok :: "channel \<Rightarrow> bool" where
  "all_ok ch = True"

definition server_lost :: "event list" where
  "server_lost =
     [Initialize (JStr ''user1'') all_ok,
      SocketClosed Invoices, SocketClosed Payments, SocketClosed Balances]"

text \<open>Some channel has no socket; what the manager keeps true about polling.\<close>

definition some_down :: "manager \<Rightarrow> bool" where
  "some_down m = (conn m Invoices = None \<or> conn m Payments = None \<or> conn m Balances = None)"

definition polling_inv :: "manager \<Rightarrow> bool" where
  "polling_inv m = ((fallbackPolling m \<longleftrightarrow> pollingInterval m \<noteq> None)
                    \<and> (fallbackPolling m \<longrightarrow> some_down m))"

text \<open>While \<open>connect\<close> opens the channels one after the other, the channels in \<open>D\<close> are
  still to be opened.\<close>

definition connecting_inv :: "channel set \<Rightarrow> manager \<Rightarrow> bool" where
  "connecting_inv D m =
     ((fallbackPolling m \<longleftrightarrow> pollingInterval m \<noteq> None)
      \<and> (\<forall>ch\<in>D. conn m ch = None)
      \<and> (fallbackPolling m \<longrightarrow> (\<exists>ch. ch \<notin> D \<and> conn m ch = None)))"







text \<open>The part of the manager's state the examples look at.\<close>

definition summary ::
  "manager \<Rightarrow> bool \<times> nat \<times> nat \<times> nat option \<times> nat set \<times> nat \<times> bool \<times> nat option \<times> nat" where
  "summary m = (fallbackPolling m, reconnectAttempts m, maxReconnectAttempts m, reconnectTimeout m,
                timers m, setTimeoutCalls m, all_down m, pollingInterval m, setIntervalCalls m)"

section \<open>Data utilities (DataUtils)\<close>

subsection \<open>Errors, strings and dates\<close>

text \<open>
  The only exception these functions can raise by themselves is the \<open>TypeError\<close> of a
  property read on \<open>null\<close> or \<open>undefined\<close>, or of a call of a method the value does not
  have.  A result is the error or the value returned.
\<close>

datatype js_error = TypeError

text \<open>\<open>Array.prototype.filter\<close> with a callback that may throw: elements are visited from
  the left, and the first exception ends the call.\<close>

fun jfilter :: "('a \<Rightarrow> js_error + bool) \<Rightarrow> 'a list \<Rightarrow> js_error + 'a list" where
  "jfilter P [] = Inr []"
| "jfilter P (x # xs) =
     (case P x of
        Inl e \<Rightarrow> Inl e
      | Inr b \<Rightarrow> (case jfilter P xs of
                   Inl e \<Rightarrow> Inl e
                 | Inr ys \<Rightarrow> Inr (if b then x # ys else ys)))"

text \<open>\<open>String.prototype.toLowerCase\<close> on ASCII letters (other characters are kept) and
  \<open>String.prototype.includes\<close>.\<close>

definition lower_char :: "char \<Rightarrow> char" where
  "lower_char c =
     (let n = (of_char c :: nat) in if 65 \<le> n \<and> n \<le> 90 then char_of (n + 32) else c)"

definition toLowerCase :: "string \<Rightarrow> string" where
  "toLowerCase s = map lower_char s"

fun starts_with :: "'a list \<Rightarrow> 'a list \<Rightarrow> bool" where
  "starts_with xs [] = True"
| "starts_with [] (y # ys) = False"
| "starts_with (x # xs) (y # ys) = (x = y \<and> starts_with xs ys)"

fun str_includes :: "'a list \<Rightarrow> 'a list \<Rightarrow> bool" where
  "str_includes [] sub = (sub = [])"
| "str_includes (x # xs) sub = (starts_with (x # xs) sub \<or> str_includes xs sub)"

text \<open>
  \<open>new Date(v)\<close> as the time value in milliseconds, \<open>None\<close> for an invalid date.  The
  result is fixed by the language for \<open>undefined\<close>, \<open>null\<close>, booleans and numbers; for a
  string it is what the browser's date parser \<open>dp\<close> makes of it, and likewise for an
  object.
\<close>

definition newDate :: "(jsval \<Rightarrow> int option) \<Rightarrow> jsval \<Rightarrow> int option" where
  "newDate dp v =
     (case v of
        JUndefined \<Rightarrow> None
      | JNull \<Rightarrow> Some 0
      | JBool b \<Rightarrow> Some (if b then 1 else 0)
      | JNum n \<Rightarrow> (if \<bar>n\<bar> \<le> 8640000000000000 then Some n else None)
      | JNaN \<Rightarrow> None
      | JStr s \<Rightarrow> dp (JStr s)
      | JRef r \<Rightarrow> dp (JRef r))"

text \<open>
  \<open>d.setHours(0, 0, 0, 0)\<close> and \<open>d.setHours(23, 59, 59, 999)\<close> move a date to the first and
  the last millisecond of its day in local time; \<open>tz\<close> is the offset of local time from
  UTC in milliseconds (taken as constant: no daylight-saving change).  An invalid date
  stays invalid.
\<close>

definition startOfDay :: "int \<Rightarrow> int option \<Rightarrow> int option" where
  "startOfDay tz d = map_option (\<lambda>t. ((t + tz) div 86400000) * 86400000 - tz) d"

definition endOfDay :: "int \<Rightarrow> int option \<Rightarrow> int option" where
  "endOfDay tz d = map_option (\<lambda>t. ((t + tz) div 86400000) * 86400000 - tz + 86399999) d"

text \<open>\<open>a < b\<close> and \<open>a > b\<close> on dates: false as soon as one of them is invalid.\<close>

definition date_lt :: "int option \<Rightarrow> int option \<Rightarrow> bool" where
  "date_lt a b = (case (a, b) of (Some x, Some y) \<Rightarrow> x < y | _ \<Rightarrow> False)"

definition date_gt :: "int option \<Rightarrow> int option \<Rightarrow> bool" where
  "date_gt a b = (case (a, b) of (Some x, Some y) \<Rightarrow> x > y | _ \<Rightarrow> False)"

subsection \<open>filterTransactions\<close>

text \<open>
  An argument that should be an array is an array or some other value.  An entry of the
  array is an object, or \<open>null\<close>/\<open>undefined\<close> (\<open>None\<close>).  The \<open>filters\<close>, \<open>searchData\<close> and
  \<open>dateRange\<close> arguments are objects or missing (\<open>None\<close>); \<open>x?.f\<close> and the guard
  \<open>dateRange && ...\<close> read a missing argument as having no field set.
\<close>

datatype array_arg = NotArray jsval | Arr "obj option list"

definition optp :: "obj option \<Rightarrow> string \<Rightarrow> jsval" where
  "optp ob k = (case ob of None \<Rightarrow> JUndefined | Some f \<Rightarrow> getp f k)"

text \<open>\<open>tx => tx.f === v\<close>\<close>

definition field_is :: "string \<Rightarrow> jsval \<Rightarrow> obj option \<Rightarrow> js_error + bool" where
  "field_is k v tx = (case tx of None \<Rightarrow> Inl TypeError | Some t \<Rightarrow> Inr (strict_eq (getp t k) v))"

text \<open>\<open>v && v.toLowerCase().includes(searchLower)\<close>, as the condition it is used for.\<close>

definition text_matches :: "jsval \<Rightarrow> string \<Rightarrow> js_error + bool" where
  "text_matches v searchLower =
     (if \<not> truthy v then Inr False
      else case v of JStr s \<Rightarrow> Inr (str_includes (toLowerCase s) searchLower)
                   | _ \<Rightarrow> Inl TypeError)"

definition search_matches :: "string \<Rightarrow> obj option \<Rightarrow> js_error + bool" where
  "search_matches searchLower tx =
     (case tx of
        None \<Rightarrow> Inl TypeError
      | Some t \<Rightarrow>
          (case text_matches (getp t ''memo'') searchLower of
             Inl e \<Rightarrow> Inl e
           | Inr True \<Rightarrow> Inr True
           | Inr False \<Rightarrow> text_matches (getp t ''payment_hash'') searchLower))"

definition date_matches ::
  "(jsval \<Rightarrow> int option) \<Rightarrow> int \<Rightarrow> obj \<Rightarrow> obj option \<Rightarrow> js_error + bool" where
  "date_matches dp tz dateRange tx =
     (case tx of
        None \<Rightarrow> Inl TypeError
      | Some t \<Rightarrow>
          let txDate = newDate dp (getp t ''created_at'');
              matches1 =
                (if truthy (getp dateRange ''from'')
                 then let fromDate = startOfDay tz (newDate dp (getp dateRange ''from''))
                      in \<not> date_lt txDate fromDate
                 else True);
              matches2 =
                (if matches1 \<and> truthy (getp dateRange ''to'')
                 then let toDate = endOfDay tz (newDate dp (getp dateRange ''to''))
                      in \<not> date_gt txDate toDate
                 else matches1)
          in Inr matches2)"

text \<open>Sequencing of steps that may throw.\<close>

definition and_then :: "js_error + 'a \<Rightarrow> ('a \<Rightarrow> js_error + 'b) \<Rightarrow> js_error + 'b" where
  "and_then r f = (case r of Inl e \<Rightarrow> Inl e | Inr x \<Rightarrow> f x)"

definition filterTransactions ::
  "(jsval \<Rightarrow> int option) \<Rightarrow> int \<Rightarrow> array_arg \<Rightarrow> obj option \<Rightarrow> obj option \<Rightarrow> obj option
     \<Rightarrow> js_error + obj option list" where
  "filterTransactions dp tz transactions filters' searchData dateRange =
     (case transactions of
        NotArray v \<Rightarrow> Inr []
      | Arr txs \<Rightarrow>
          and_then
            (if truthy (optp filters' ''direction'')
                \<and> \<not> strict_eq (optp filters' ''direction'') (JStr ''all'')
             then jfilter (field_is ''direction'' (optp filters' ''direction'')) txs
             else Inr txs)
          (\<lambda>r1. and_then
            (if truthy (optp filters' ''status'')
                \<and> \<not> strict_eq (optp filters' ''status'') (JStr ''all'')
             then jfilter (field_is ''status'' (optp filters' ''status'')) r1
             else Inr r1)
          (\<lambda>r2. and_then
            (if truthy (optp searchData ''searchText'')
             then (case optp searchData ''searchText'' of
                     JStr s \<Rightarrow> jfilter (search_matches (toLowerCase s)) r2
                   | _ \<Rightarrow> Inl TypeError)
             else Inr r2)
          (\<lambda>r3.
            (case dateRange of
               Some dr \<Rightarrow>
                 if truthy (getp dr ''from'') \<or> truthy (getp dr ''to'')
                 then jfilter (date_matches dp tz dr) r3
                 else Inr r3
             | None \<Rightarrow> Inr r3)))))"

text \<open>
  What the four filters ask of a transaction.  A filter is active when its criterion is
  set: a truthy direction or status other than \<open>'all'\<close>, a truthy search text, a truthy
  \<open>from\<close> or \<open>to\<close>.
\<close>

definition direction_active :: "obj option \<Rightarrow> bool" where
  "direction_active filters' =
     (truthy (optp filters' ''direction'') \<and> optp filters' ''direction'' \<noteq> JStr ''all'')"

definition status_active :: "obj option \<Rightarrow> bool" where
  "status_active filters' =
     (truthy (optp filters' ''status'') \<and> optp filters' ''status'' \<noteq> JStr ''all'')"

definition search_active :: "obj option \<Rightarrow> bool" where
  "search_active searchData = truthy (optp searchData ''searchText'')"

definition from_active :: "obj option \<Rightarrow> bool" where
  "from_active dateRange = truthy (optp dateRange ''from'')"

definition to_active :: "obj option \<Rightarrow> bool" where
  "to_active dateRange = truthy (optp dateRange ''to'')"

text \<open>A text field contains the search text, case-insensitively.\<close>

definition contains_ci :: "jsval \<Rightarrow> jsval \<Rightarrow> bool" where
  "contains_ci v search =
     (case (v, search) of
        (JStr s, JStr q) \<Rightarrow> (\<exists>a b. toLowerCase s = a @ toLowerCase q @ b)
      | _ \<Rightarrow> False)"

text \<open>The transaction's date is before the first millisecond of the from-day, or after
  the last millisecond of the to-day.\<close>

definition before_from_day :: "(jsval \<Rightarrow> int option) \<Rightarrow> int \<Rightarrow> obj option \<Rightarrow> obj \<Rightarrow> bool" where
  "before_from_day dp tz dateRange t =
     (\<exists>x d. newDate dp (getp t ''created_at'') = Some x
          \<and> newDate dp (optp dateRange ''from'') = Some d
          \<and> x < ((d + tz) div 86400000) * 86400000 - tz)"

definition after_to_day :: "(jsval \<Rightarrow> int option) \<Rightarrow> int \<Rightarrow> obj option \<Rightarrow> obj \<Rightarrow> bool" where
  "after_to_day dp tz dateRange t =
     (\<exists>x d. newDate dp (getp t ''created_at'') = Some x
          \<and> newDate dp (optp dateRange ''to'') = Some d
          \<and> x > ((d + tz) div 86400000) * 86400000 - tz + 86399999)"

definition passes_filters ::
  "(jsval \<Rightarrow> int option) \<Rightarrow> int \<Rightarrow> obj option \<Rightarrow> obj option \<Rightarrow> obj option \<Rightarrow> obj option \<Rightarrow> bool"
  where
  "passes_filters dp tz filters' searchData dateRange tx =
     (case tx of
        None \<Rightarrow> False
      | Some t \<Rightarrow>
          (direction_active filters' \<longrightarrow> getp t ''direction'' = optp filters' ''direction'')
        \<and> (status_active filters' \<longrightarrow> getp t ''status'' = optp filters' ''status'')
        \<and> (search_active searchData \<longrightarrow>
              contains_ci (getp t ''memo'') (optp searchData ''searchText'')
            \<or> contains_ci (getp t ''payment_hash'') (optp searchData ''searchText''))
        \<and> (from_active dateRange \<longrightarrow> \<not> before_from_day dp tz dateRange t)
        \<and> (to_active dateRange \<longrightarrow> \<not> after_to_day dp tz dateRange t))"

text \<open>The four parts of \<open>passes_filters\<close>, one for each stage of the function.\<close>

definition dir_ok :: "obj option \<Rightarrow> obj option \<Rightarrow> bool" where
  "dir_ok f tx = (direction_active f \<longrightarrow> getp (the tx) ''direction'' = optp f ''direction'')"

definition status_ok :: "obj option \<Rightarrow> obj option \<Rightarrow> bool" where
  "status_ok f tx = (status_active f \<longrightarrow> getp (the tx) ''status'' = optp f ''status'')"

definition search_ok :: "obj option \<Rightarrow> obj option \<Rightarrow> bool" where
  "search_ok sd tx = (search_active sd \<longrightarrow>
       contains_ci (getp (the tx) ''memo'') (optp sd ''searchText'')
     \<or> contains_ci (getp (the tx) ''payment_hash'') (optp sd ''searchText''))"

definition range_ok :: "(jsval \<Rightarrow> int option) \<Rightarrow> int \<Rightarrow> obj option \<Rightarrow> obj option \<Rightarrow> bool" where
  "range_ok dp tz dr tx =
     ((from_active dr \<longrightarrow> \<not> before_from_day dp tz dr (the tx))
    \<and> (to_active dr \<longrightarrow> \<not> after_to_day dp tz dr (the tx)))"

text \<open>The inputs on which no step of the filter throws: every entry is an object whose
  memo and payment hash are strings or falsy, and the search text is a string or falsy.\<close>

definition text_or_falsy :: "jsval \<Rightarrow> bool" where
  "text_or_falsy v = (\<not> truthy v \<or> (\<exists>s. v = JStr s))"

definition well_formed_tx :: "obj option \<Rightarrow> bool" where
  "well_formed_tx tx =
     (case tx of None \<Rightarrow> False
      | Some t \<Rightarrow> text_or_falsy (getp t ''memo'') \<and> text_or_falsy (getp t ''payment_hash''))"

text \<open>
  The example of the specification: the date parser on the two day strings (a date-only
  ISO string is midnight UTC of that day: 1 and 31 January 2024), local time UTC, and
  three transactions, the last of which has no \<open>created_at\<close>.
\<close>

definition example_parse :: "jsval \<Rightarrow> int option" where
  "example_parse v =
     (if v = JStr ''2024-01-01'' then Some 1704067200000
      else if v = JStr ''2024-01-31'' then Some 1706659200000
      else None)"

definition january :: obj where
  "january = [''from'' \<mapsto> JStr ''2024-01-01'', ''to'' \<mapsto> JStr ''2024-01-31'']"

definition coffee_invoice :: obj where
  "coffee_invoice =
     [''id'' \<mapsto> JStr ''inv1'', ''direction'' \<mapsto> JStr ''incoming'', ''status'' \<mapsto> JStr ''paid'',
      ''memo'' \<mapsto> JStr ''Coffee beans'', ''created_at'' \<mapsto> JNum 1705312800000]"

definition february_invoice :: obj where
  "february_invoice =
     [''id'' \<mapsto> JStr ''inv2'', ''direction'' \<mapsto> JStr ''incoming'', ''status'' \<mapsto> JStr ''paid'',
      ''memo'' \<mapsto> JStr ''coffee'', ''created_at'' \<mapsto> JNum 1706745600000]"

definition undated_invoice :: obj where
  "undated_invoice =
     [''id'' \<mapsto> JStr ''inv3'', ''direction'' \<mapsto> JStr ''incoming'', ''status'' \<mapsto> JStr ''pending'',
      ''memo'' \<mapsto> JStr ''coffee'']"

definition example_txs :: "obj option list" where
  "example_txs = [Some coffee_invoice, Some february_invoice, Some undated_invoice]"

definition incoming_only :: obj where
  "incoming_only = [''direction'' \<mapsto> JStr ''incoming'']"

definition coffee_search :: obj where
  "coffee_search = [''searchText'' \<mapsto> JStr ''coffee'']"

subsection \<open>downloadCSV\<close>

text \<open>
  A row is an object with its properties in the order \<open>Object.keys\<close> lists them (the order
  in which the caller wrote them; the callers build each row as an object literal).
  \<open>row[header]\<close> is \<open>undefined\<close> for a name the row does not have.
\<close>

type_synonym row = "(string \<times> jsval) list"

definition cell :: "row \<Rightarrow> string \<Rightarrow> jsval" where
  "cell r header = (case map_of r header of None \<Rightarrow> JUndefined | Some v \<Rightarrow> v)"

definition comma :: char where "comma = CHR '',''"

definition dquote :: char where "dquote = CHR 0x22"

definition newline :: char where "newline = CHR 0x0A"

text \<open>\<open>Array.prototype.join\<close> on strings.\<close>

fun join :: "string \<Rightarrow> string list \<Rightarrow> string" where
  "join sep [] = []"
| "join sep [x] = x"
| "join sep (x # y # ys) = x @ sep @ join sep (y # ys)"

text \<open>\<open>toString()\<close> of a value that is neither \<open>undefined\<close> nor \<open>null\<close>; a reference stands
  for a plain object.\<close>

function show_nat :: "nat \<Rightarrow> string" where
  "show_nat n = (if n < 10 then [''0123456789'' ! n]
                 else show_nat (n div 10) @ [''0123456789'' ! (n mod 10)])"
  by pat_completeness auto
termination
  by (relation "measure id") auto

declare show_nat.simps [simp del]

definition show_int :: "int \<Rightarrow> string" where
  "show_int i = (if i < 0 then CHR ''-'' # show_nat (nat (- i)) else show_nat (nat i))"

fun jsToString :: "jsval \<Rightarrow> string" where
  "jsToString (JStr s) = s"
| "jsToString (JNum n) = show_int n"
| "jsToString JNaN = ''NaN''"
| "jsToString (JBool b) = (if b then ''true'' else ''false'')"
| "jsToString (JRef r) = ''[object Object]''"
| "jsToString JUndefined = ''undefined''"
| "jsToString JNull = ''null''"

text \<open>The callback of \<open>headers.map\<close>: the text of one field of one row.\<close>

definition csv_field :: "row \<Rightarrow> string \<Rightarrow> string" where
  "csv_field r header =
     (let v = (if cell r header \<noteq> JUndefined \<and> cell r header \<noteq> JNull
               then jsToString (cell r header) else [])
      in if comma \<in> set v \<or> dquote \<in> set v \<or> newline \<in> set v
         then [dquote] @ concat (map (\<lambda>c. if c = dquote then [dquote, dquote] else [c]) v)
              @ [dquote]
         else v)"

definition csvContent :: "row list \<Rightarrow> string" where
  "csvContent rows =
     (let headers = map fst (hd rows)
      in foldl (\<lambda>content r. content @ join [comma] (map (csv_field r) headers) @ [newline])
               (join [comma] headers @ [newline]) rows)"

text \<open>
  \<open>downloadCSV(rows, filename, notifyCallback)\<close>: what it returns, the text it hands to
  the browser as the file (if any) and the message it notifies.  \<open>None\<close> is a falsy
  \<open>rows\<close>.  The \<open>catch\<close> branch is reached only when the browser fails to create the
  download, which is not represented.
\<close>

record download =
  returned :: bool
  content :: "string option"
  message :: string

definition downloadCSV :: "row list option \<Rightarrow> download" where
  "downloadCSV rows =
     (case rows of
        None \<Rightarrow> \<lparr>returned = False, content = None, message = ''No data to export''\<rparr>
      | Some rs \<Rightarrow>
          if length rs = 0
          then \<lparr>returned = False, content = None, message = ''No data to export''\<rparr>
          else \<lparr>returned = True, content = Some (csvContent rs),
                message = ''Data exported successfully''\<rparr>)"

text \<open>The text of a value as \<open>csv_field\<close> writes it, and the text up to the first line
  break and after it.\<close>

definition csv_text :: "jsval \<Rightarrow> string" where
  "csv_text v =
     (let s = (if v \<noteq> JUndefined \<and> v \<noteq> JNull then jsToString v else [])
      in if comma \<in> set s \<or> dquote \<in> set s \<or> newline \<in> set s
         then [dquote] @ concat (map (\<lambda>c. if c = dquote then [dquote, dquote] else [c]) s)
              @ [dquote]
         else s)"

definition first_line :: "string \<Rightarrow> string" where
  "first_line s = takeWhile (\<lambda>c. c \<noteq> newline) s"

definition after_first_line :: "string \<Rightarrow> string" where
  "after_first_line s = drop 1 (dropWhile (\<lambda>c. c \<noteq> newline) s)"

text \<open>The row of the specification's example, and a row that needs quoting.\<close>

definition example_row :: row where
  "example_row =
     [(''date'', JStr ''2024-01-01''), (''type'', JStr ''RECEIVED''),
      (''amount'', JStr ''10''), (''asset'', JStr ''USDT'')]"

definition quoted_row :: row where
  "quoted_row =
     [(''memo'', JStr (''say '' @ [dquote] @ ''hi'' @ [dquote] @ '', twice'')),
      (''amount'', JNum 25), (''note'', JNull)]"

subsection \<open>mapTransaction and combineTransactions\<close>

text \<open>
  \<open>mapTransaction\<close> copies the transaction and completes the copy.  The copy's \<open>extra\<close>
  field holds an object, so the function works on a heap, given with the next free
  address: it allocates \<open>{}\<close> when the transaction has no \<open>extra\<close>, writes into the
  (shared) \<open>extra\<close> of an invoice, and allocates a new \<open>extra\<close> for a payment.
  \<open>formatDate\<close> and \<open>getRelativeTime\<close> depend on the Quasar library and on the clock and
  are parameters; both catch their own exceptions.  A write to a property of a primitive
  is ignored.
\<close>

type_synonym memory = "heap \<times> nat"

definition set_field :: "heap \<Rightarrow> jsval \<Rightarrow> string \<Rightarrow> jsval \<Rightarrow> heap" where
  "set_field h v k x = (case v of JRef r \<Rightarrow> h(r \<mapsto> (props h v)(k \<mapsto> x)) | _ \<Rightarrow> h)"

definition mapTransaction ::
  "(jsval \<Rightarrow> jsval) \<Rightarrow> (jsval \<Rightarrow> jsval) \<Rightarrow> memory \<Rightarrow> obj option \<Rightarrow> jsval
     \<Rightarrow> memory \<times> obj option" where
  "mapTransaction formatDate getRelativeTime mem transaction type =
     (case transaction of
        None \<Rightarrow> (mem, None)
      | Some tr \<Rightarrow>
          let h = fst mem; n = snd mem;
              m1 = tr(''type'' \<mapsto> js_or type (if truthy (getp tr ''payment_hash'')
                                                 then JStr ''invoice'' else JStr ''payment''));
              m2 = m1(''direction'' \<mapsto> (if strict_eq (getp m1 ''type'') (JStr ''invoice'')
                                         then JStr ''incoming'' else JStr ''outgoing''));
              m3 = (if truthy (getp m2 ''created_at'')
                    then m2(''date'' \<mapsto> formatDate (getp m2 ''created_at''),
                            ''timeFrom'' \<mapsto> getRelativeTime (getp m2 ''created_at''))
                    else m2);
              m4 = (if truthy (getp m3 ''description'') \<and> \<not> truthy (getp m3 ''memo'')
                    then m3(''memo'' \<mapsto> getp m3 ''description'') else m3);
              h1 = (if truthy (getp m4 ''extra'') then h else h(n \<mapsto> Map.empty));
              n1 = (if truthy (getp m4 ''extra'') then n else Suc n);
              m5 = (if truthy (getp m4 ''extra'') then m4 else m4(''extra'' \<mapsto> JRef n))
          in if strict_eq (getp m5 ''type'') (JStr ''invoice'')
             then
               let extra = getp m5 ''extra'';
                   h2 = (if \<not> truthy (field h1 extra ''asset_amount'')
                            \<and> truthy (getp m5 ''asset_amount'')
                         then set_field h1 extra ''asset_amount'' (getp m5 ''asset_amount'')
                         else h1);
                   h3 = (if \<not> truthy (field h2 extra ''asset_id'') \<and> truthy (getp m5 ''asset_id'')
                         then set_field h2 extra ''asset_id'' (getp m5 ''asset_id'')
                         else h2)
               in ((h3, n1), Some m5)
             else
               ((h1(n1 \<mapsto> [''asset_amount'' \<mapsto> getp m5 ''asset_amount'',
                              ''asset_id'' \<mapsto> getp m5 ''asset_id'',
                              ''fee_sats'' \<mapsto> getp m5 ''fee_sats'']), Suc n1),
                Some (m5(''extra'' \<mapsto> JRef n1))))"

text \<open>\<open>xs.map(x => f(x))\<close> for an \<open>f\<close> that works on the memory.\<close>

fun map_memory :: "(memory \<Rightarrow> 'a \<Rightarrow> memory \<times> 'b) \<Rightarrow> memory \<Rightarrow> 'a list \<Rightarrow> memory \<times> 'b list" where
  "map_memory f mem [] = (mem, [])"
| "map_memory f mem (x # xs) =
     (let (mem1, y) = f mem x; (mem2, ys) = map_memory f mem1 xs in (mem2, y # ys))"

text \<open>
  \<open>sort((a, b) => new Date(b.created_at) - new Date(a.created_at))\<close>.  The comparator
  reads a field of both arguments, so it throws on a \<open>null\<close> entry; it is called as soon
  as the array has two entries.  Its result is positive when \<open>b\<close> is the more recent
  one and \<open>NaN\<close>, which counts as zero, when a date is invalid.  The sort is stable; it
  is written as an insertion sort, with which every sort agrees as long as the
  comparator is consistent.
\<close>

definition more_recent :: "(jsval \<Rightarrow> int option) \<Rightarrow> obj option \<Rightarrow> obj option \<Rightarrow> bool" where
  "more_recent dp b a =
     (case (newDate dp (optp b ''created_at''), newDate dp (optp a ''created_at'')) of
        (Some x, Some y) \<Rightarrow> x - y > 0
      | _ \<Rightarrow> False)"

fun insert_by_date :: "(jsval \<Rightarrow> int option) \<Rightarrow> obj option \<Rightarrow> obj option list \<Rightarrow> obj option list"
  where
  "insert_by_date dp a [] = [a]"
| "insert_by_date dp a (b # bs) =
     (if more_recent dp b a then b # insert_by_date dp a bs else a # b # bs)"

definition sort_by_date :: "(jsval \<Rightarrow> int option) \<Rightarrow> obj option list \<Rightarrow> js_error + obj option list"
  where
  "sort_by_date dp xs =
     (if length xs \<ge> 2 \<and> None \<in> set xs then Inl TypeError
      else Inr (foldr (insert_by_date dp) xs []))"

definition combineTransactions ::
  "(jsval \<Rightarrow> jsval) \<Rightarrow> (jsval \<Rightarrow> jsval) \<Rightarrow> (jsval \<Rightarrow> int option) \<Rightarrow> memory
     \<Rightarrow> array_arg \<Rightarrow> array_arg \<Rightarrow> memory \<times> (js_error + obj option list)" where
  "combineTransactions formatDate getRelativeTime dp mem invoices' payments' =
     (let safeInvoices = (case invoices' of Arr xs \<Rightarrow> xs | NotArray v \<Rightarrow> []);
          safePayments = (case payments' of Arr xs \<Rightarrow> xs | NotArray v \<Rightarrow> []);
          (mem1, mappedInvoices) =
             map_memory (\<lambda>m invoice. mapTransaction formatDate getRelativeTime m invoice
                                        (JStr ''invoice'')) mem safeInvoices;
          (mem2, mappedPayments) =
             map_memory (\<lambda>m payment. mapTransaction formatDate getRelativeTime m payment
                                        (JStr ''payment'')) mem1 safePayments
      in (mem2, sort_by_date dp (mappedInvoices @ mappedPayments)))"

text \<open>A payment as the backend lists it.\<close>

definition sent_payment :: obj where
  "sent_payment =
     [''id'' \<mapsto> JStr ''pay1'', ''status'' \<mapsto> JStr ''completed'', ''asset_id'' \<mapsto> JStr ''a1'',
      ''asset_amount'' \<mapsto> JNum 10, ''created_at'' \<mapsto> JNum 1705312800000]"

section \<open>The payment service and the pay flow\<close>

subsection \<open>Numbers, errors and the outside world\<close>

text \<open>
  \<open>Number(v)\<close>, the conversion the arithmetic operators apply to their operands; a
  string converts when, blanks at its ends apart, it is empty or an optionally signed
  run of digits.
\<close>

definition trim :: "string \<Rightarrow> string" where
  "trim s = rev (dropWhile (\<lambda>c. c = CHR '' '') (rev (dropWhile (\<lambda>c. c = CHR '' '') s)))"

definition number_of_string :: "string \<Rightarrow> jsval" where
  "number_of_string s =
     (let t = trim s;
          neg = (t \<noteq> [] \<and> hd t = CHR ''-'');
          r = (if t \<noteq> [] \<and> (hd t = CHR ''-'' \<or> hd t = CHR ''+'') then tl t else t)
      in if t = [] then JNum 0
         else if r \<noteq> [] \<and> list_all is_digit r
         then JNum (if neg then - int (parse_digits r) else int (parse_digits r))
         else JNaN)"

fun toNumber :: "jsval \<Rightarrow> jsval" where
  "toNumber JUndefined = JNaN"
| "toNumber JNull = JNum 0"
| "toNumber (JBool b) = JNum (if b then 1 else 0)"
| "toNumber (JNum n) = JNum n"
| "toNumber JNaN = JNaN"
| "toNumber (JStr s) = number_of_string s"
| "toNumber (JRef r) = JNaN"

text \<open>\<open>a - b\<close> on any two values, and \<open>Math.max(0, v)\<close>.\<close>

definition js_minus :: "jsval \<Rightarrow> jsval \<Rightarrow> jsval" where
  "js_minus a b = js_sub (toNumber a) (toNumber b)"

definition max0 :: "jsval \<Rightarrow> jsval" where
  "max0 v = (case toNumber v of JNum n \<Rightarrow> JNum (max 0 n) | _ \<Rightarrow> JNaN)"

text \<open>
  A thrown value, with the fields the code reads: \<open>message\<close>, \<open>isApiError\<close>,
  \<open>isInternalPayment\<close> and \<open>response.data\<close> (\<open>None\<close> when \<open>response\<close> or its \<open>data\<close> is
  missing).  \<open>new Error(m)\<close> has the message only; so has the \<open>TypeError\<close> the engine
  throws.
\<close>

record js_exn =
  exn_message :: jsval
  exn_isApiError :: jsval
  exn_isInternalPayment :: jsval
  exn_response_data :: "obj option"

definition new_Error :: "jsval \<Rightarrow> js_exn" where
  "new_Error m = \<lparr>exn_message = m, exn_isApiError = JUndefined,
                  exn_isInternalPayment = JUndefined, exn_response_data = None\<rparr>"

definition type_error :: js_exn where
  "type_error = new_Error (JStr ''TypeError'')"

text \<open>
  A call of the backend's \<open>pay\<close> endpoint is rejected with an error or resolves with a
  response, of which \<open>response.data\<close> is kept (\<open>None\<close> when it is missing).  The backend,
  the clock and the two date formatters are the environment; the backend answers a call
  knowing how many calls came before.
\<close>

datatype outcome = Rejected js_exn | Resolved "obj option"

record env =
  server :: "nat \<Rightarrow> obj \<Rightarrow> outcome"
  now_ms :: int
  now_iso :: string
  env_formatDate :: "jsval \<Rightarrow> jsval"
  env_getRelativeTime :: "jsval \<Rightarrow> jsval"

text \<open>
  What the user is shown and the refreshes the page starts: \<open>showError(m)\<close>,
  \<open>processApiError(error, fallback)\<close>, \<open>showInfo(m)\<close>, \<open>showSuccess(m)\<close>, \<open>getAssets()\<close>
  and \<open>refreshTransactions()\<close>.
\<close>

datatype ui_event =
    ErrorShown string
  | ApiError js_exn string
  | InfoShown jsval
  | SuccessShown string
  | AssetsRefreshed
  | TransactionsRefreshed

text \<open>
  The state the payment code works on: the store, the global \<open>window.assetMap\<close>
  (\<open>None\<close> while it is undefined), the heap, the payloads sent to the \<open>pay\<close> endpoint so
  far, and what the user has been shown.
\<close>

record world =
  w_store :: store
  assetMap :: "(string \<rightharpoonup> obj) option"
  w_mem :: memory
  calls :: "obj list"
  ui :: "ui_event list"

text \<open>\<open>ApiService.payInvoice(adminkey, payload)\<close>\<close>

definition apiPay :: "env \<Rightarrow> world \<Rightarrow> obj \<Rightarrow> world \<times> outcome" where
  "apiPay e w payload = (w\<lparr>calls := calls w @ [payload]\<rparr>, server e (length (calls w)) payload)"

subsection \<open>Asset names\<close>

definition assetMap_entry :: "world \<Rightarrow> jsval \<Rightarrow> obj option" where
  "assetMap_entry w assetId =
     (case assetMap w of None \<Rightarrow> None | Some m \<Rightarrow> m (jsToString assetId))"

text \<open>\<open>Array.prototype.find\<close>\<close>

definition find_asset :: "store \<Rightarrow> jsval \<Rightarrow> obj option" where
  "find_asset s assetId = List.find (\<lambda>a. strict_eq (getp a ''asset_id'') assetId) (assets s)"

text \<open>\<open>AssetService.getAssetName\<close> with \<open>AssetService.getAssetById\<close>, and
  \<open>PaymentService._getAssetName\<close>, which asks the former when the global map has no entry.\<close>

definition service_getAssetName :: "world \<Rightarrow> jsval \<Rightarrow> jsval" where
  "service_getAssetName w assetId =
     (case assetMap_entry w assetId of
        Some entry \<Rightarrow> js_or (getp entry ''name'') (JStr ''Unknown'')
      | None \<Rightarrow>
          if \<not> truthy assetId then JStr ''Unknown''
          else (case find_asset (w_store w) assetId of
                  Some asset \<Rightarrow> js_or (getp asset ''name'') (JStr ''Unknown'')
                | None \<Rightarrow> JStr ''Unknown''))"

definition getAssetName :: "world \<Rightarrow> jsval \<Rightarrow> jsval" where
  "getAssetName w assetId =
     (if \<not> truthy assetId then JStr ''Unknown''
      else (case assetMap_entry w assetId of
              Some entry \<Rightarrow> js_or (getp entry ''name'') (JStr ''Unknown'')
            | None \<Rightarrow> service_getAssetName w assetId))"

text \<open>\<open>if (!window.assetMap) window.assetMap = {}; if (!window.assetMap[id]) window.assetMap[id] = {name, type}\<close>\<close>

definition remember_asset :: "obj \<Rightarrow> world \<Rightarrow> world" where
  "remember_asset asset w =
     (let m = (case assetMap w of None \<Rightarrow> Map.empty | Some m \<Rightarrow> m);
          key = jsToString (getp asset ''asset_id'')
      in case m key of
           Some entry \<Rightarrow> w\<lparr>assetMap := Some m\<rparr>
         | None \<Rightarrow>
             w\<lparr>assetMap := Some (m(key \<mapsto> [''name'' \<mapsto> js_or (getp asset ''name'') (JStr ''Unknown''),
                                               ''type'' \<mapsto> js_or (getp asset ''type'') (JStr ''unknown'')]))\<rparr>)"

subsection \<open>PaymentService\<close>

text \<open>
  \<open>_mapPayment(payment)\<close> for a payment object: the mapped copy, with the asset name
  written into the copy and into its \<open>extra\<close> object.
\<close>

definition mapPayment :: "env \<Rightarrow> world \<Rightarrow> obj \<Rightarrow> world \<times> obj option" where
  "mapPayment e w payment =
     (case mapTransaction (env_formatDate e) (env_getRelativeTime e) (w_mem w) (Some payment)
             (JStr ''payment'') of
        (mem1, None) \<Rightarrow> (w\<lparr>w_mem := mem1\<rparr>, None)
      | (mem1, Some mapped) \<Rightarrow>
          let m1 = (if truthy (getp mapped ''asset_id'') \<and> \<not> truthy (getp mapped ''asset_name'')
                    then
                      let m = mapped(''asset_name'' \<mapsto> getAssetName w (getp mapped ''asset_id''))
                      in if \<not> truthy (getp m ''memo'') \<and> truthy (getp m ''asset_name'')
                            \<and> \<not> strict_eq (getp m ''asset_name'') (JStr ''Unknown'')
                         then m(''memo'' \<mapsto> JStr []) else m
                    else mapped);
              h1 = (if truthy (getp m1 ''extra'') then fst mem1
                    else (fst mem1)(snd mem1 \<mapsto> Map.empty));
              n1 = (if truthy (getp m1 ''extra'') then snd mem1 else Suc (snd mem1));
              m2 = (if truthy (getp m1 ''extra'') then m1 else m1(''extra'' \<mapsto> JRef (snd mem1)));
              h2 = set_field h1 (getp m2 ''extra'') ''asset_name''
                     (js_or (getp m2 ''asset_name'') (getAssetName w (getp m2 ''asset_id'')))
          in (w\<lparr>w_mem := (h2, n1)\<rparr>, Some m2))"

text \<open>The value the \<open>catch\<close> block of \<open>payInvoice\<close> throws for the error it caught.  The
  test \<open>detail.includes(...)\<close> is itself a \<open>TypeError\<close> on a truthy primitive that is not a
  string; a reference stands for the list of validation errors, which includes neither
  text.\<close>

definition internal_payment_message :: string where
  "internal_payment_message =
     ''This invoice belongs to another user on this node. System will process it as an internal payment.''"

definition payInvoice_catch :: "js_exn \<Rightarrow> js_exn" where
  "payInvoice_catch error =
     (let detail = optp (exn_response_data error) ''detail''
      in if truthy detail
         then (case detail of
                 JStr d \<Rightarrow>
                   if str_includes d ''internal payment'' \<or> str_includes d ''own invoice''
                   then error\<lparr>exn_isInternalPayment := JBool True,
                              exn_message := JStr internal_payment_message\<rparr>
                   else error
               | JRef r \<Rightarrow> error
               | _ \<Rightarrow> type_error)
         else error)"

text \<open>
  The blocks the two pay functions are made of.  The payload sent to the \<open>pay\<close>
  endpoint by \<open>payInvoice\<close> (with the peer of the asset's channel when there is one) and
  by \<open>processInternalPayment\<close>:
\<close>

definition pay_payload :: "world \<Rightarrow> obj \<Rightarrow> obj option \<Rightarrow> obj" where
  "pay_payload w asset paymentData =
     (let payload = [''payment_request'' \<mapsto> optp paymentData ''paymentRequest'',
                     ''fee_limit_sats'' \<mapsto> js_or (optp paymentData ''feeLimit'') (JNum 1000),
                     ''asset_id'' \<mapsto> getp asset ''asset_id''];
          peer = field (fst (w_mem w)) (getp asset ''channel_info'') ''peer_pubkey''
      in if truthy peer then payload(''peer_pubkey'' \<mapsto> peer) else payload)"

definition internal_payload :: "obj option \<Rightarrow> obj" where
  "internal_payload paymentData =
     [''payment_request'' \<mapsto> optp paymentData ''paymentRequest'',
      ''fee_limit_sats'' \<mapsto> js_or (optp paymentData ''feeLimit'') (JNum 10),
      ''asset_id'' \<mapsto> optp paymentData ''assetId'']"

text \<open>
  The balance update, the same in both functions: the amount is deducted from the
  \<open>user_balance\<close> of the asset object at hand, the result (not below zero) is passed to
  \<open>window.taprootStore.actions.updateAsset\<close> for the asset of that id, and the asset is
  entered in the global map.
\<close>

definition deduct_balance :: "obj \<Rightarrow> jsval \<Rightarrow> world \<Rightarrow> world" where
  "deduct_balance asset asset_amount w =
     (let newBalance = js_minus (js_or (getp asset ''user_balance'') (JNum 0)) asset_amount
      in remember_asset asset
           (w\<lparr>w_store := updateAsset ActionsObject (w_store w) (getp asset ''asset_id'')
                             [''user_balance'' \<mapsto> max0 newBalance]\<rparr>))"

text \<open>The payment record each function builds from the response; \<open>Math.ceil(fee_msat / 1000)\<close>
  is the fee in satoshis.\<close>

definition payment_record :: "env \<Rightarrow> obj option \<Rightarrow> obj \<Rightarrow> obj option \<Rightarrow> obj \<Rightarrow> obj" where
  "payment_record e wallet asset paymentData data =
     [''id'' \<mapsto> js_or (getp data ''payment_hash'') (JStr (show_int (now_ms e))),
      ''payment_hash'' \<mapsto> getp data ''payment_hash'',
      ''payment_request'' \<mapsto> optp paymentData ''paymentRequest'',
      ''asset_id'' \<mapsto> js_or (getp data ''asset_id'') (getp asset ''asset_id''),
      ''asset_amount'' \<mapsto> getp data ''asset_amount'',
      ''fee_sats'' \<mapsto> (if truthy (getp data ''fee_msat'')
                        then (case toNumber (getp data ''fee_msat'') of
                                JNum n \<Rightarrow> JNum (- ((- n) div 1000))
                              | _ \<Rightarrow> JNaN)
                        else JNum 0),
      ''memo'' \<mapsto> js_or (getp data ''description'') (JStr []),
      ''status'' \<mapsto> JStr ''completed'',
      ''user_id'' \<mapsto> optp wallet ''user'',
      ''wallet_id'' \<mapsto> optp wallet ''id'',
      ''created_at'' \<mapsto> JStr (now_iso e),
      ''preimage'' \<mapsto> getp data ''preimage'']"

definition internal_payment_record :: "env \<Rightarrow> obj option \<Rightarrow> obj option \<Rightarrow> obj \<Rightarrow> obj" where
  "internal_payment_record e wallet paymentData data =
     [''id'' \<mapsto> js_or (getp data ''payment_hash'') (JStr (show_int (now_ms e))),
      ''payment_hash'' \<mapsto> getp data ''payment_hash'',
      ''payment_request'' \<mapsto> optp paymentData ''paymentRequest'',
      ''asset_id'' \<mapsto> getp data ''asset_id'',
      ''asset_amount'' \<mapsto> getp data ''asset_amount'',
      ''fee_sats'' \<mapsto> JNum 0,
      ''memo'' \<mapsto> js_or (getp data ''description'') (JStr []),
      ''status'' \<mapsto> JStr ''completed'',
      ''user_id'' \<mapsto> optp wallet ''user'',
      ''wallet_id'' \<mapsto> optp wallet ''id'',
      ''created_at'' \<mapsto> JStr (now_iso e),
      ''preimage'' \<mapsto> getp data ''preimage'',
      ''internal_payment'' \<mapsto> JBool True]"

text \<open>The end of both functions: the record is mapped, passed to
  \<open>window.taprootStore.actions.addPayment\<close>, and \<open>response.data\<close> is returned.\<close>

definition store_payment :: "env \<Rightarrow> world \<Rightarrow> obj \<Rightarrow> obj \<Rightarrow> world \<times> (js_exn + obj)" where
  "store_payment e w payment data =
     (let mp = mapPayment e w payment
      in case snd mp of
           None \<Rightarrow> (fst mp, Inl type_error)
         | Some mappedPayment \<Rightarrow>
             ((fst mp)\<lparr>w_store := fst (addPayment ActionsObject (w_store (fst mp)) mappedPayment)\<rparr>, Inr data))"

text \<open>The \<open>try\<close> block of \<open>payInvoice(wallet, assetData, paymentData)\<close>: the state it
  leaves and the error it throws or the \<open>response.data\<close> it returns.  Reading
  \<open>assetData.asset_id\<close> for the payload is a \<open>TypeError\<close> when there is no asset.\<close>

definition payInvoice_try ::
  "env \<Rightarrow> world \<Rightarrow> obj option \<Rightarrow> obj option \<Rightarrow> obj option \<Rightarrow> world \<times> (js_exn + obj)" where
  "payInvoice_try e w wallet assetData paymentData =
     (if wallet = None \<or> \<not> truthy (optp wallet ''adminkey'')
      then (w, Inl (new_Error (JStr ''Valid wallet is required'')))
      else if \<not> truthy (optp paymentData ''paymentRequest'')
      then (w, Inl (new_Error (JStr ''Payment request is required'')))
      else case assetData of
        None \<Rightarrow> (w, Inl type_error)
      | Some asset \<Rightarrow>
          let sent = apiPay e w (pay_payload w asset paymentData);
              w1 = fst sent
          in case snd sent of
               Rejected error \<Rightarrow> (w1, Inl error)
             | Resolved None \<Rightarrow>
                 (w1, Inl (new_Error (JStr ''Failed to process payment: No data returned'')))
             | Resolved (Some data) \<Rightarrow>
                 if \<not> truthy (getp data ''status'')
                    \<or> strict_eq (getp data ''status'') (JStr ''failed'')
                 then (w1, Inl (new_Error (js_or (getp data ''error'') (JStr ''Payment failed''))))
                 else if strict_eq (getp data ''status'') (JStr ''success'')
                 then
                   let w2 = (if truthy (getp data ''asset_id'')
                             then deduct_balance asset (getp data ''asset_amount'') w1
                             else w1)
                   in store_payment e w2 (payment_record e wallet asset paymentData data) data
                 else (w1, Inr data))"

definition payInvoice ::
  "env \<Rightarrow> world \<Rightarrow> obj option \<Rightarrow> obj option \<Rightarrow> obj option \<Rightarrow> world \<times> (js_exn + obj)" where
  "payInvoice e w wallet assetData paymentData =
     (case payInvoice_try e w wallet assetData paymentData of
        (w', Inl error) \<Rightarrow> (w', Inl (payInvoice_catch error))
      | (w', Inr data) \<Rightarrow> (w', Inr data))"

text \<open>\<open>processInternalPayment(wallet, paymentData)\<close>; its \<open>catch\<close> block rethrows the error
  as it is.  The asset is looked up in the store by the id in the response, and the
  response's status is not looked at.\<close>

definition processInternalPayment ::
  "env \<Rightarrow> world \<Rightarrow> obj option \<Rightarrow> obj option \<Rightarrow> world \<times> (js_exn + obj)" where
  "processInternalPayment e w wallet paymentData =
     (if wallet = None \<or> \<not> truthy (optp wallet ''adminkey'')
      then (w, Inl (new_Error (JStr ''Valid wallet is required'')))
      else if \<not> truthy (optp paymentData ''paymentRequest'')
      then (w, Inl (new_Error (JStr ''Payment request is required'')))
      else
        let sent = apiPay e w (internal_payload paymentData);
            w1 = fst sent
        in case snd sent of
             Rejected error \<Rightarrow> (w1, Inl error)
           | Resolved None \<Rightarrow>
               (w1, Inl (new_Error (JStr ''Failed to process internal payment: No data returned'')))
           | Resolved (Some data) \<Rightarrow>
               let w2 = (case find_asset (w_store w1) (getp data ''asset_id'') of
                           Some asset \<Rightarrow>
                             if truthy (getp data ''asset_id'')
                             then deduct_balance asset (getp data ''asset_amount'') w1
                             else w1
                         | None \<Rightarrow> w1)
               in store_payment e w2 (internal_payment_record e wallet paymentData data) data)"

subsection \<open>The pay flow of the page (index.js)\<close>

text \<open>
  \<open>NotificationService.processApiError(error, fallbackMessage)\<close> shows and returns the
  message it extracts from the error; \<open>notifyPaymentSent(paymentResult)\<close> shows a success
  message.
\<close>

definition api_error_message :: "js_exn \<Rightarrow> string \<Rightarrow> jsval" where
  "api_error_message error fallbackMessage =
     (if truthy (exn_isApiError error) \<and> truthy (exn_message error) then exn_message error
      else case exn_response_data error of
        Some d \<Rightarrow>
          if truthy (getp d ''detail'') then getp d ''detail''
          else if truthy (getp d ''message'') then getp d ''message''
          else JStr fallbackMessage
      | None \<Rightarrow>
          if truthy (exn_message error) then exn_message error else JStr fallbackMessage)"

definition processApiError :: "js_exn \<Rightarrow> string \<Rightarrow> world \<Rightarrow> world \<times> jsval" where
  "processApiError error fallbackMessage w =
     (w\<lparr>ui := ui w @ [ApiError error fallbackMessage]\<rparr>, api_error_message error fallbackMessage)"

definition notifyPaymentSent :: "obj \<Rightarrow> world \<Rightarrow> world" where
  "notifyPaymentSent paymentResult w =
     w\<lparr>ui := ui w @ [SuccessShown
        (if truthy (getp paymentResult ''internal_payment'')
         then ''Payment to another user on this node has been processed successfully.''
         else ''Payment has been sent successfully.'')]\<rparr>"

text \<open>The part of the page's data the pay flow uses; \<open>wallets\<close> is \<open>g.user.wallets\<close>.\<close>

record page =
  parseDialog_invoice :: "obj option"
  parseDialog_show :: bool
  paymentDialog_show :: bool
  paymentDialog_selectedAsset :: "obj option"
  paymentDialog_feeLimit :: jsval
  paymentDialog_inProgress :: bool
  wallets :: "obj list option"

text \<open>The page's \<open>processInternalPayment(paymentRequest, feeLimit)\<close>, with the value it
  returns.\<close>

definition page_processInternalPayment ::
  "env \<Rightarrow> world \<times> page \<Rightarrow> jsval \<Rightarrow> jsval \<Rightarrow> (world \<times> page) \<times> bool" where
  "page_processInternalPayment e wp paymentRequest feeLimit =
     (let w = fst wp; pg = snd wp
      in case wallets pg of
           None \<Rightarrow> ((w, pg\<lparr>paymentDialog_inProgress := False\<rparr>), False)
         | Some [] \<Rightarrow> ((w, pg\<lparr>paymentDialog_inProgress := False\<rparr>), False)
         | Some (wallet # ws) \<Rightarrow>
             let pg1 = pg\<lparr>paymentDialog_inProgress := True, paymentDialog_show := False\<rparr>;
                 assetId = (case paymentDialog_selectedAsset pg1 of
                              Some a \<Rightarrow> getp a ''asset_id'' | None \<Rightarrow> JNull);
                 r = processInternalPayment e w (Some wallet)
                       (Some [''paymentRequest'' \<mapsto> paymentRequest,
                              ''feeLimit'' \<mapsto> js_or feeLimit (JNum 10),
                              ''assetId'' \<mapsto> assetId])
             in case snd r of
                  Inr paymentResult \<Rightarrow>
                    let w1 = notifyPaymentSent paymentResult (fst r);
                        w2 = w1\<lparr>ui := ui w1 @ [AssetsRefreshed, TransactionsRefreshed]\<rparr>
                    in ((w2, pg1\<lparr>paymentDialog_inProgress := False\<rparr>), True)
                | Inl error \<Rightarrow>
                    ((fst (processApiError error ''Internal payment failed'' (fst r)),
                      pg1\<lparr>paymentDialog_inProgress := False\<rparr>), False))"

text \<open>
  The page's \<open>payInvoice()\<close>.  After a failure that is not an internal payment the
  handler looks into the message shown; if that is not a string, the look itself throws
  and the handler ends there.
\<close>

definition page_payInvoice :: "env \<Rightarrow> world \<times> page \<Rightarrow> world \<times> page" where
  "page_payInvoice e wp =
     (let w = fst wp; pg = snd wp
      in case (parseDialog_invoice pg, paymentDialog_selectedAsset pg) of
           (Some invoice, Some asset) \<Rightarrow>
             (case wallets pg of
                None \<Rightarrow> (w, pg)
              | Some [] \<Rightarrow> (w, pg)
              | Some (wallet # ws) \<Rightarrow>
                  let pg1 = pg\<lparr>parseDialog_show := False, paymentDialog_show := False\<rparr>;
                      r = payInvoice e w (Some wallet) (paymentDialog_selectedAsset pg1)
                            (Some [''paymentRequest'' \<mapsto> getp invoice ''bolt11'',
                                   ''feeLimit'' \<mapsto> paymentDialog_feeLimit pg1])
                  in case snd r of
                       Inr paymentResult \<Rightarrow>
                         let w1 = notifyPaymentSent paymentResult (fst r)
                         in (w1\<lparr>ui := ui w1 @ [AssetsRefreshed, TransactionsRefreshed]\<rparr>, pg1)
                     | Inl error \<Rightarrow>
                         if truthy (exn_isInternalPayment error)
                         then
                           let w1 = (fst r)\<lparr>ui := ui (fst r) @ [InfoShown (exn_message error)]\<rparr>
                           in fst (page_processInternalPayment e (w1, pg1)
                                     (getp invoice ''bolt11'') (paymentDialog_feeLimit pg1))
                         else
                           let shown = processApiError error ''Payment failed'' (fst r)
                           in (case snd shown of
                                 JStr errorMessage \<Rightarrow>
                                   if str_includes (toLowerCase errorMessage) ''channel''
                                      \<and> (str_includes (toLowerCase errorMessage) ''offline''
                                          \<or> str_includes (toLowerCase errorMessage) ''unavailable'')
                                   then ((fst shown)\<lparr>ui := ui (fst shown) @ [AssetsRefreshed]\<rparr>,
                                         pg1\<lparr>parseDialog_show := False, paymentDialog_show := False\<rparr>)
                                   else (fst shown, pg1)
                               | _ \<Rightarrow> (fst shown, pg1)))
         | _ \<Rightarrow> (w\<lparr>ui := ui w @ [ErrorShown ''Missing invoice or asset information'']\<rparr>, pg))"

text \<open>
  An example: a wallet, an asset held with balance 50, an invoice to pay, and a backend
  that rejects the first call because the invoice belongs to a user of the same node and
  accepts the second.
\<close>

definition example_wallet :: obj where
  "example_wallet = [''id'' \<mapsto> JStr ''w1'', ''user'' \<mapsto> JStr ''user1'', ''adminkey'' \<mapsto> JStr ''key'']"

definition held_asset :: obj where
  "held_asset = [''asset_id'' \<mapsto> JStr ''a1'', ''name'' \<mapsto> JStr ''USDT'', ''user_balance'' \<mapsto> JNum 50]"

definition example_world :: world where
  "example_world =
     \<lparr>w_store = initial_store\<lparr>assets := [held_asset]\<rparr>, assetMap = None,
      w_mem = (Map.empty, 0), calls = [], ui = []\<rparr>"

definition example_invoice :: obj where
  "example_invoice = [''bolt11'' \<mapsto> JStr ''lnbc1'', ''amount'' \<mapsto> JNum 10]"

definition example_page :: page where
  "example_page =
     \<lparr>parseDialog_invoice = Some example_invoice,
      parseDialog_show = True, paymentDialog_show = True,
      paymentDialog_selectedAsset = Some held_asset,
      paymentDialog_feeLimit = JNum 100, paymentDialog_inProgress = False,
      wallets = Some [example_wallet]\<rparr>"

definition own_invoice_error :: js_exn where
  "own_invoice_error =
     \<lparr>exn_message = JStr ''Request failed with status code 400'', exn_isApiError = JUndefined,
      exn_isInternalPayment = JUndefined,
      exn_response_data = Some [''detail'' \<mapsto> JStr ''Cannot pay own invoice'']\<rparr>"

definition paid_response :: obj where
  "paid_response =
     [''status'' \<mapsto> JStr ''success'', ''payment_hash'' \<mapsto> JStr ''h1'', ''asset_id'' \<mapsto> JStr ''a1'',
      ''asset_amount'' \<mapsto> JNum 10]"

definition same_node_env :: env where
  "same_node_env =
     \<lparr>server = (\<lambda>n payload. if n = 0 then Rejected own_invoice_error
                              else Resolved (Some paid_response)),
      now_ms = 1705312800000, now_iso = ''2024-01-15T10:00:00.000Z'',
      env_formatDate = (\<lambda>d. d), env_getRelativeTime = (\<lambda>d. d)\<rparr>"

text \<open>A backend that accepts every payment with the given response, and a request to pay.\<close>

definition accepting_env :: "obj \<Rightarrow> env" where
  "accepting_env response =
     \<lparr>server = (\<lambda>n payload. Resolved (Some response)),
      now_ms = 1705312800000, now_iso = ''2024-01-15T10:00:00.000Z'',
      env_formatDate = (\<lambda>d. d), env_getRelativeTime = (\<lambda>d. d)\<rparr>"

definition pay_request :: obj where
  "pay_request = [''paymentRequest'' \<mapsto> JStr ''lnbc1'', ''feeLimit'' \<mapsto> JNum 100]"

section \<open>Properties\<close>

subsection \<open>The receivable ceiling\<close>

lemma parseFloat_str_digits_example:
  "parseFloat (JStr ''600'') = JNum 600"
  by (simp add: parseFloat_str_def is_digit_def parse_digits_def digit_val_def)

text \<open>
  C6. For an asset whose channel information has numeric capacity \<open>cap\<close> and local
  balance \<open>lb\<close>, the maximum receivable amount is \<open>cap - lb\<close>, and a requested amount is
  valid exactly when it is at most \<open>cap - lb\<close>.  At capacity 1000 and local balance 400
  the ceiling is 600: 600 is valid and 601 is not (the witness).
\<close>

theorem C6_invoice_ceiling:
  assumes "h a = Some ao"
      and "ao ''channel_info'' = Some (JRef c)"
      and "h c = Some co"
      and "co ''capacity'' = Some (JNum cap)"
      and "co ''local_balance'' = Some (JNum lb)"
  shows "maxInvoiceAmount h (JRef a) = JNum (cap - lb)
       \<and> (isInvoiceAmountValid h (JRef a) (JNum amt) \<longleftrightarrow> amt \<le> cap - lb)"
  using assms
  by (simp add: isInvoiceAmountValid_def maxInvoiceAmount_def getMaxReceivableAmount_def
                field_def props_def getp_def)

theorem C6_invoice_ceiling_witness:
  "maxInvoiceAmount example_heap (JRef 0) = JNum 600
   \<and> isInvoiceAmountValid example_heap (JRef 0) (JNum 600)
   \<and> \<not> isInvoiceAmountValid example_heap (JRef 0) (JNum 601)"
proof -
  have ha: "example_heap 0 = Some [''asset_id'' \<mapsto> JStr ''a1'', ''channel_info'' \<mapsto> JRef 1]"
    by (simp add: example_heap_def)
  have hc: "example_heap 1 = Some [''capacity'' \<mapsto> JNum 1000, ''local_balance'' \<mapsto> JNum 400]"
    by (simp add: example_heap_def)
  have ci: "[''asset_id'' \<mapsto> JStr ''a1'', ''channel_info'' \<mapsto> JRef 1] ''channel_info''
              = Some (JRef 1)"
    by simp
  have cap: "[''capacity'' \<mapsto> JNum 1000, ''local_balance'' \<mapsto> JNum 400] ''capacity''
              = Some (JNum 1000)"
    by simp
  have lb: "[''capacity'' \<mapsto> JNum 1000, ''local_balance'' \<mapsto> JNum 400] ''local_balance''
              = Some (JNum 400)"
    by simp
  show ?thesis
    using C6_invoice_ceiling [OF ha ci hc cap lb, of 600]
          C6_invoice_ceiling [OF ha ci hc cap lb, of 601]
    by simp
qed

subsection \<open>The store: upserts by id\<close>

lemma findIndex_Some:
  "findIndex P xs = Some i \<Longrightarrow> i < length xs \<and> P (xs ! i) \<and> (\<forall>j<i. \<not> P (xs ! j))"
proof (induction xs arbitrary: i)
  case Nil then show ?case by simp
next
  case (Cons x xs)
  show ?case
  proof (cases "P x")
    case True with Cons.prems show ?thesis by simp
  next
    case False
    with Cons.prems obtain k where k: "findIndex P xs = Some k" "i = Suc k" by auto
    from Cons.IH[OF k(1)] False k(2) show ?thesis
      by (auto simp: less_Suc_eq_0_disj)
  qed
qed

lemma findIndex_update_same:
  "findIndex P xs = Some i \<Longrightarrow> P y \<Longrightarrow> findIndex P (xs[i := y]) = Some i"
proof (induction xs arbitrary: i)
  case Nil then show ?case by simp
next
  case (Cons x xs)
  show ?case
  proof (cases "P x")
    case True with Cons.prems show ?thesis by simp
  next
    case False
    with Cons.prems obtain k where k: "findIndex P xs = Some k" "i = Suc k" by auto
    from Cons.IH[OF k(1) Cons.prems(2)] False k(2) show ?thesis by simp
  qed
qed

lemma strip_markers_add: "strip_markers (a ++ b) = strip_markers a ++ strip_markers b"
  by (rule ext) (simp add: strip_markers_def map_add_def)

lemma strip_markers_upd_marker:
  "k \<in> markers \<Longrightarrow> strip_markers (ob(k \<mapsto> v)) = strip_markers ob"
  by (rule ext) (simp add: strip_markers_def)

lemma markers_mem:
  "''_isNew'' \<in> markers" "''_statusChanged'' \<in> markers" "''_previousStatus'' \<in> markers"
  by (simp_all add: markers_def)

lemma getp_upd: "getp (ob(k \<mapsto> v)) k' = (if k' = k then v else getp ob k')"
  by (simp add: getp_def)

lemma getp_add: "getp (a ++ b) k = (case b k of None \<Rightarrow> getp a k | Some v \<Rightarrow> v)"
  by (simp add: getp_def map_add_def split: option.splits)

lemma strict_eq_refl: "a \<noteq> JNaN \<Longrightarrow> strict_eq a a"
  by (simp add: strict_eq_def)

lemma truthy_not_NaN: "truthy a \<Longrightarrow> a \<noteq> JNaN"
  by auto

lemma map_add_twice: "(a ++ b) ++ b = a ++ b"
  by (rule ext) (simp add: map_add_def split: option.splits)

lemmas upsert_simps =
  this_state_def Let_def same_up_to_markers_def strict_eq_refl findIndex_update_same map_update
  strip_markers_add strip_markers_upd_marker markers_mem getp_upd

lemma addInvoice_twice:
  assumes "getp u ''id'' \<noteq> JNaN"
  shows "same_up_to_markers (fst (addInvoice StoreObject (fst (addInvoice StoreObject s u)) u)) (fst (addInvoice StoreObject s u))"
proof (cases "findIndex (\<lambda>i. strict_eq (getp i ''id'') (getp u ''id'')) (invoices s)")
  case None
  then show ?thesis using assms
    by (simp add: addInvoice_def this_state_def upsert_simps)
next
  case (Some i)
  note fi = findIndex_Some[OF Some]
  show ?thesis using assms Some fi
    by (simp add: addInvoice_def this_state_def upsert_simps)
qed

lemma addPayment_twice:
  assumes "getp u ''id'' \<noteq> JNaN"
  shows "same_up_to_markers (fst (addPayment StoreObject (fst (addPayment StoreObject s u)) u)) (fst (addPayment StoreObject s u))"
proof (cases "findIndex (\<lambda>i. strict_eq (getp i ''id'') (getp u ''id'')) (payments s)")
  case None
  then show ?thesis using assms
    by (simp add: addPayment_def this_state_def upsert_simps)
next
  case (Some i)
  note fi = findIndex_Some[OF Some]
  show ?thesis using assms Some fi
    by (simp add: addPayment_def this_state_def upsert_simps)
qed

lemma mark_status: "getp (r ++ mark r ch) ''status'' = (case ch ''status'' of None \<Rightarrow> getp r ''status'' | Some v \<Rightarrow> v)"
  by (simp add: mark_def getp_add)

lemma mark_second: "mark (r ++ mark r ch) ch = ch"
proof (cases "truthy (getp ch ''status'')")
  case False
  then show ?thesis by (simp add: mark_def)
next
  case True
  then obtain v where v: "ch ''status'' = Some v" "truthy v"
    by (cases "ch ''status''") (auto simp: getp_def)
  then have "getp (r ++ mark r ch) ''status'' = v" by (simp add: mark_status)
  moreover have "getp ch ''status'' = v" using v by (simp add: getp_def)
  ultimately show ?thesis using v(2) truthy_not_NaN[OF v(2)]
    by (simp add: mark_def strict_eq_def)
qed

lemma mark_id: "''id'' \<notin> dom ch \<Longrightarrow> getp (r ++ mark r ch) ''id'' = getp r ''id''"
  by (auto simp: mark_def getp_add domIff)

lemma strip_mark: "strip_markers (mark r ch) = strip_markers ch"
  by (simp add: mark_def strip_markers_upd_marker markers_mem)

lemma merge_twice_up_to_markers:
  "strip_markers ((r ++ mark r ch) ++ ch) = strip_markers (r ++ mark r ch)"
  by (simp add: strip_markers_add strip_mark map_add_twice)

lemma merge_twice_exact:
  assumes "dom ch \<inter> markers = {}"
  shows "(r ++ mark r ch) ++ ch = r ++ mark r ch"
proof (rule ext)
  fix k
  show "((r ++ mark r ch) ++ ch) k = (r ++ mark r ch) k"
  proof (cases "ch k")
    case None
    then show ?thesis by (simp add: map_add_def)
  next
    case (Some v)
    with assms have "k \<notin> markers" by auto
    then have "k \<noteq> ''_previousStatus''" "k \<noteq> ''_statusChanged''"
      by (auto simp: markers_def)
    with Some show ?thesis by (simp add: map_add_def mark_def)
  qed
qed

lemma updateInvoice_found:
  "findIndex (\<lambda>i. strict_eq (getp i ''id'') iid) (invoices s) = Some n \<Longrightarrow>
   updateInvoice StoreObject s iid ch =
     (s\<lparr>invoices := (invoices s)[n := (invoices s ! n) ++ mark (invoices s ! n) ch]\<rparr>,
      mark (invoices s ! n) ch)"
  by (simp add: updateInvoice_def this_state_def mark_def Let_def)

lemma updatePayment_found:
  "findIndex (\<lambda>i. strict_eq (getp i ''id'') pid) (payments s) = Some n \<Longrightarrow>
   updatePayment StoreObject s pid ch =
     (s\<lparr>payments := (payments s)[n := (payments s ! n) ++ mark (payments s ! n) ch]\<rparr>,
      mark (payments s ! n) ch)"
  by (simp add: updatePayment_def this_state_def mark_def Let_def)

lemma updateInvoice_twice_refind:
  assumes "''id'' \<notin> dom ch"
      and "findIndex (\<lambda>i. strict_eq (getp i ''id'') iid) (invoices s) = Some n"
  shows "findIndex (\<lambda>i. strict_eq (getp i ''id'') iid)
           ((invoices s)[n := (invoices s ! n) ++ mark (invoices s ! n) ch]) = Some n"
proof -
  have "strict_eq (getp ((invoices s ! n) ++ mark (invoices s ! n) ch) ''id'') iid"
    using findIndex_Some[OF assms(2)] assms(1) by (simp add: mark_id)
  with findIndex_update_same[OF assms(2)] show ?thesis by simp
qed

lemma updateInvoice_twice_markers:
  assumes "''id'' \<notin> dom ch"
  shows "same_up_to_markers (fst (updateInvoice StoreObject (fst (updateInvoice StoreObject s iid ch)) iid ch))
           (fst (updateInvoice StoreObject s iid ch))"
proof (cases "findIndex (\<lambda>i. strict_eq (getp i ''id'') iid) (invoices s)")
  case None
  then show ?thesis by (simp add: updateInvoice_def this_state_def same_up_to_markers_def)
next
  case (Some n)
  show ?thesis using findIndex_Some[OF Some]
    by (simp add: updateInvoice_found[OF Some] updateInvoice_found
                  updateInvoice_twice_refind[OF assms Some] mark_second
                  same_up_to_markers_def map_update merge_twice_up_to_markers)
qed

lemma updateInvoice_twice_exact:
  assumes "''id'' \<notin> dom ch" and nm: "dom ch \<inter> markers = {}"
  shows "fst (updateInvoice StoreObject (fst (updateInvoice StoreObject s iid ch)) iid ch) = fst (updateInvoice StoreObject s iid ch)"
proof (cases "findIndex (\<lambda>i. strict_eq (getp i ''id'') iid) (invoices s)")
  case None
  then show ?thesis by (simp add: updateInvoice_def this_state_def)
next
  case (Some n)
  show ?thesis using findIndex_Some[OF Some]
    by (simp add: updateInvoice_found[OF Some] updateInvoice_found
                  updateInvoice_twice_refind[OF assms(1) Some] mark_second
                  merge_twice_exact[OF nm])
qed

lemma updatePayment_twice_refind:
  assumes "''id'' \<notin> dom ch"
      and "findIndex (\<lambda>i. strict_eq (getp i ''id'') pid) (payments s) = Some n"
  shows "findIndex (\<lambda>i. strict_eq (getp i ''id'') pid)
           ((payments s)[n := (payments s ! n) ++ mark (payments s ! n) ch]) = Some n"
proof -
  have "strict_eq (getp ((payments s ! n) ++ mark (payments s ! n) ch) ''id'') pid"
    using findIndex_Some[OF assms(2)] assms(1) by (simp add: mark_id)
  with findIndex_update_same[OF assms(2)] show ?thesis by simp
qed

lemma updatePayment_twice_markers:
  assumes "''id'' \<notin> dom ch"
  shows "same_up_to_markers (fst (updatePayment StoreObject (fst (updatePayment StoreObject s pid ch)) pid ch))
           (fst (updatePayment StoreObject s pid ch))"
proof (cases "findIndex (\<lambda>i. strict_eq (getp i ''id'') pid) (payments s)")
  case None
  then show ?thesis by (simp add: updatePayment_def this_state_def same_up_to_markers_def)
next
  case (Some n)
  show ?thesis using findIndex_Some[OF Some]
    by (simp add: updatePayment_found[OF Some] updatePayment_found
                  updatePayment_twice_refind[OF assms Some] mark_second
                  same_up_to_markers_def map_update merge_twice_up_to_markers)
qed

lemma updatePayment_twice_exact:
  assumes "''id'' \<notin> dom ch" and nm: "dom ch \<inter> markers = {}"
  shows "fst (updatePayment StoreObject (fst (updatePayment StoreObject s pid ch)) pid ch) = fst (updatePayment StoreObject s pid ch)"
proof (cases "findIndex (\<lambda>i. strict_eq (getp i ''id'') pid) (payments s)")
  case None
  then show ?thesis by (simp add: updatePayment_def this_state_def)
next
  case (Some n)
  show ?thesis using findIndex_Some[OF Some]
    by (simp add: updatePayment_found[OF Some] updatePayment_found
                  updatePayment_twice_refind[OF assms(1) Some] mark_second
                  merge_twice_exact[OF nm])
qed

lemma addInvoice_same_object:
  assumes "getp u ''id'' \<noteq> JNaN" and "getp u ''status'' \<noteq> JNaN"
  shows "fst (addInvoice StoreObject (fst (addInvoice StoreObject s u)) (snd (addInvoice StoreObject s u))) = fst (addInvoice StoreObject s u)"
proof (cases "findIndex (\<lambda>i. strict_eq (getp i ''id'') (getp u ''id'')) (invoices s)")
  case None
  then show ?thesis using assms
    by (simp add: addInvoice_def this_state_def Let_def strict_eq_refl getp_upd)
next
  case (Some i)
  show ?thesis using assms Some findIndex_Some[OF Some]
    by (simp add: addInvoice_def this_state_def Let_def strict_eq_refl getp_upd findIndex_update_same)
qed

lemma addPayment_same_object:
  assumes "getp u ''id'' \<noteq> JNaN" and "getp u ''status'' \<noteq> JNaN"
  shows "fst (addPayment StoreObject (fst (addPayment StoreObject s u)) (snd (addPayment StoreObject s u))) = fst (addPayment StoreObject s u)"
proof (cases "findIndex (\<lambda>i. strict_eq (getp i ''id'') (getp u ''id'')) (payments s)")
  case None
  then show ?thesis using assms
    by (simp add: addPayment_def this_state_def Let_def strict_eq_refl getp_upd)
next
  case (Some i)
  show ?thesis using assms Some findIndex_Some[OF Some]
    by (simp add: addPayment_def this_state_def Let_def strict_eq_refl getp_upd findIndex_update_same)
qed

lemma on_actions_object:
  "addInvoice ActionsObject s u = (s, u)"
  "addPayment ActionsObject s u = (s, u)"
  "updateInvoice ActionsObject s i ch = (s, ch)"
  "updatePayment ActionsObject s i ch = (s, ch)"
  "updateAsset ActionsObject s i ch = s"
  "setWebsocketStatus ActionsObject s ch = s"
  by (simp_all add: addInvoice_def addPayment_def updateInvoice_def updatePayment_def
                    updateAsset_def setWebsocketStatus_def this_state_def)

text \<open>
  C1. Applying the same update twice leaves the store in the state one application
  leaves it in.  Called as the repository calls them, on \<open>taprootStore.actions\<close>, the four
  upserts return at their guard, so the states are equal outright.  Called on the store
  object, where \<open>this.state\<close> is the state, the two states agree in everything but the
  presentation markers \<open>_isNew\<close>, \<open>_statusChanged\<close> and \<open>_previousStatus\<close>: for
  \<open>addInvoice\<close> and \<open>addPayment\<close> when the update's id is not \<open>NaN\<close> (and outright when the
  object marked by the first call is passed again), for \<open>updateInvoice\<close> and
  \<open>updatePayment\<close> when the changes do not assign the \<open>id\<close> field (and outright when the
  changes carry no marker field of their own).
\<close>

theorem C1_upserts_idempotent:
  "fst (addInvoice ActionsObject (fst (addInvoice ActionsObject s u)) u)
     = fst (addInvoice ActionsObject s u)
   \<and> fst (addPayment ActionsObject (fst (addPayment ActionsObject s u)) u)
     = fst (addPayment ActionsObject s u)
   \<and> fst (updateInvoice ActionsObject (fst (updateInvoice ActionsObject s i ch)) i ch)
     = fst (updateInvoice ActionsObject s i ch)
   \<and> fst (updatePayment ActionsObject (fst (updatePayment ActionsObject s i ch)) i ch)
     = fst (updatePayment ActionsObject s i ch)
   \<and> (getp u ''id'' \<noteq> JNaN \<longrightarrow>
        same_up_to_markers (fst (addInvoice StoreObject (fst (addInvoice StoreObject s u)) u))
          (fst (addInvoice StoreObject s u))
      \<and> same_up_to_markers (fst (addPayment StoreObject (fst (addPayment StoreObject s u)) u))
          (fst (addPayment StoreObject s u))
      \<and> (getp u ''status'' \<noteq> JNaN \<longrightarrow>
           fst (addInvoice StoreObject (fst (addInvoice StoreObject s u))
                  (snd (addInvoice StoreObject s u)))
             = fst (addInvoice StoreObject s u)
         \<and> fst (addPayment StoreObject (fst (addPayment StoreObject s u))
                  (snd (addPayment StoreObject s u)))
             = fst (addPayment StoreObject s u)))
   \<and> (''id'' \<notin> dom ch \<longrightarrow>
        same_up_to_markers
          (fst (updateInvoice StoreObject (fst (updateInvoice StoreObject s i ch)) i ch))
          (fst (updateInvoice StoreObject s i ch))
      \<and> same_up_to_markers
          (fst (updatePayment StoreObject (fst (updatePayment StoreObject s i ch)) i ch))
          (fst (updatePayment StoreObject s i ch))
      \<and> (dom ch \<inter> markers = {} \<longrightarrow>
           fst (updateInvoice StoreObject (fst (updateInvoice StoreObject s i ch)) i ch)
             = fst (updateInvoice StoreObject s i ch)
         \<and> fst (updatePayment StoreObject (fst (updatePayment StoreObject s i ch)) i ch)
             = fst (updatePayment StoreObject s i ch)))"
proof -
  have called: "fst (addInvoice ActionsObject (fst (addInvoice ActionsObject s u)) u)
       = fst (addInvoice ActionsObject s u)
     \<and> fst (addPayment ActionsObject (fst (addPayment ActionsObject s u)) u)
       = fst (addPayment ActionsObject s u)
     \<and> fst (updateInvoice ActionsObject (fst (updateInvoice ActionsObject s i ch)) i ch)
       = fst (updateInvoice ActionsObject s i ch)
     \<and> fst (updatePayment ActionsObject (fst (updatePayment ActionsObject s i ch)) i ch)
       = fst (updatePayment ActionsObject s i ch)"
    by (simp add: on_actions_object)
  show ?thesis
    using called
          addInvoice_twice [of u s] addPayment_twice [of u s]
          addInvoice_same_object [of u s] addPayment_same_object [of u s]
          updateInvoice_twice_markers [of ch s i]
          updatePayment_twice_markers [of ch s i]
          updateInvoice_twice_exact [of ch s i]
          updatePayment_twice_exact [of ch s i]
    by blast
qed

theorem C1_upserts_idempotent_witness:
  "getp pending_invoice ''id'' \<noteq> JNaN \<and> getp pending_invoice ''status'' \<noteq> JNaN
   \<and> ''id'' \<notin> dom paid_changes \<and> dom paid_changes \<inter> markers = {}
   \<and> fst (addInvoice ActionsObject (fst (addInvoice ActionsObject stored_pending pending_invoice))
             pending_invoice)
       = fst (addInvoice ActionsObject stored_pending pending_invoice)
   \<and> same_up_to_markers
        (fst (addInvoice StoreObject (fst (addInvoice StoreObject initial_store pending_invoice))
                pending_invoice))
        (fst (addInvoice StoreObject initial_store pending_invoice))
   \<and> fst (addInvoice StoreObject (fst (addInvoice StoreObject initial_store pending_invoice))
             (snd (addInvoice StoreObject initial_store pending_invoice)))
       = fst (addInvoice StoreObject initial_store pending_invoice)
   \<and> fst (updateInvoice StoreObject
             (fst (updateInvoice StoreObject stored_pending (JStr ''inv1'') paid_changes))
             (JStr ''inv1'') paid_changes)
       = fst (updateInvoice StoreObject stored_pending (JStr ''inv1'') paid_changes)"
proof -
  have h1: "getp pending_invoice ''id'' \<noteq> JNaN"
    and h2: "getp pending_invoice ''status'' \<noteq> JNaN"
    by (simp_all add: pending_invoice_def getp_def)
  have h3: "''id'' \<notin> dom paid_changes"
    by (simp add: paid_changes_def)
  have h4: "dom paid_changes \<inter> markers = {}"
    by (simp add: paid_changes_def markers_def)
  show ?thesis
    using h1 h2 h3 h4
      C1_upserts_idempotent [of stored_pending pending_invoice]
      C1_upserts_idempotent [of initial_store pending_invoice]
      C1_upserts_idempotent [of stored_pending _ "JStr ''inv1''" paid_changes]
    by blast
qed


subsection \<open>The store: the status-change marker\<close>

lemma addInvoice_found:
  "findIndex (\<lambda>i. strict_eq (getp i ''id'') (getp u ''id'')) (invoices s) = Some n \<Longrightarrow>
   invoices (fst (addInvoice StoreObject s u)) ! n =
     (if \<not> strict_eq (getp (invoices s ! n) ''status'') (getp u ''status'')
      then u(''_previousStatus'' \<mapsto> getp (invoices s ! n) ''status'',
             ''_statusChanged'' \<mapsto> JBool True)
      else u)"
  using findIndex_Some[of _ "invoices s" n]
  by (simp add: addInvoice_def this_state_def Let_def)

lemma addPayment_found:
  "findIndex (\<lambda>i. strict_eq (getp i ''id'') (getp u ''id'')) (payments s) = Some n \<Longrightarrow>
   payments (fst (addPayment StoreObject s u)) ! n =
     (if \<not> strict_eq (getp (payments s ! n) ''status'') (getp u ''status'')
      then u(''_previousStatus'' \<mapsto> getp (payments s ! n) ''status'',
             ''_statusChanged'' \<mapsto> JBool True)
      else u)"
  using findIndex_Some[of _ "payments s" n]
  by (simp add: addPayment_def this_state_def Let_def)

lemma mark_changed:
  "truthy (getp ch ''status'') \<and> \<not> strict_eq (getp r ''status'') (getp ch ''status'') \<Longrightarrow>
   (r ++ mark r ch) ''_statusChanged'' = Some (JBool True)
   \<and> (r ++ mark r ch) ''_previousStatus'' = Some (getp r ''status'')"
  by (simp add: mark_def)

lemma mark_unchanged:
  "\<not> (truthy (getp ch ''status'') \<and> \<not> strict_eq (getp r ''status'') (getp ch ''status'')) \<Longrightarrow>
   mark r ch = ch"
  by (auto simp: mark_def)

text \<open>
  What the four upserts do to the record \<open>r\<close> found by id when they run on the store
  object, where \<open>this.state\<close> is the state: \<open>addInvoice\<close> and \<open>addPayment\<close> store the update
  itself when its status equals the stored one, and otherwise store it with
  \<open>_statusChanged = true\<close> and \<open>_previousStatus\<close> the stored status; \<open>updateInvoice\<close> and
  \<open>updatePayment\<close> store the merge with \<open>_statusChanged = true\<close> and \<open>_previousStatus\<close> the
  stored status when the changes' status is truthy and differs from the stored one, and
  otherwise store the plain merge \<open>r ++ changes\<close>.
\<close>

lemma status_marker_with_state:
  "(findIndex (\<lambda>i. strict_eq (getp i ''id'') (getp u ''id'')) (invoices s) = Some n \<longrightarrow>
      (let r = invoices s ! n; m = invoices (fst (addInvoice StoreObject s u)) ! n in
         (strict_eq (getp r ''status'') (getp u ''status'') \<longrightarrow> m = u)
       \<and> (\<not> strict_eq (getp r ''status'') (getp u ''status'') \<longrightarrow>
            m ''_statusChanged'' = Some (JBool True)
          \<and> m ''_previousStatus'' = Some (getp r ''status''))))
 \<and> (findIndex (\<lambda>p. strict_eq (getp p ''id'') (getp u ''id'')) (payments s) = Some n \<longrightarrow>
      (let r = payments s ! n; m = payments (fst (addPayment StoreObject s u)) ! n in
         (strict_eq (getp r ''status'') (getp u ''status'') \<longrightarrow> m = u)
       \<and> (\<not> strict_eq (getp r ''status'') (getp u ''status'') \<longrightarrow>
            m ''_statusChanged'' = Some (JBool True)
          \<and> m ''_previousStatus'' = Some (getp r ''status''))))
 \<and> (findIndex (\<lambda>i. strict_eq (getp i ''id'') x) (invoices s) = Some n \<longrightarrow>
      (let r = invoices s ! n; m = invoices (fst (updateInvoice StoreObject s x ch)) ! n in
         (truthy (getp ch ''status'') \<and> \<not> strict_eq (getp r ''status'') (getp ch ''status'') \<longrightarrow>
            m ''_statusChanged'' = Some (JBool True)
          \<and> m ''_previousStatus'' = Some (getp r ''status''))
       \<and> (\<not> (truthy (getp ch ''status'')
               \<and> \<not> strict_eq (getp r ''status'') (getp ch ''status'')) \<longrightarrow> m = r ++ ch)))
 \<and> (findIndex (\<lambda>p. strict_eq (getp p ''id'') x) (payments s) = Some n \<longrightarrow>
      (let r = payments s ! n; m = payments (fst (updatePayment StoreObject s x ch)) ! n in
         (truthy (getp ch ''status'') \<and> \<not> strict_eq (getp r ''status'') (getp ch ''status'') \<longrightarrow>
            m ''_statusChanged'' = Some (JBool True)
          \<and> m ''_previousStatus'' = Some (getp r ''status''))
       \<and> (\<not> (truthy (getp ch ''status'')
               \<and> \<not> strict_eq (getp r ''status'') (getp ch ''status'')) \<longrightarrow> m = r ++ ch)))"
proof (intro conjI impI)
  assume f: "findIndex (\<lambda>i. strict_eq (getp i ''id'') (getp u ''id'')) (invoices s) = Some n"
  show "let r = invoices s ! n; m = invoices (fst (addInvoice StoreObject s u)) ! n in
         (strict_eq (getp r ''status'') (getp u ''status'') \<longrightarrow> m = u)
       \<and> (\<not> strict_eq (getp r ''status'') (getp u ''status'') \<longrightarrow>
            m ''_statusChanged'' = Some (JBool True)
          \<and> m ''_previousStatus'' = Some (getp r ''status''))"
    by (simp add: addInvoice_found[OF f] Let_def)
next
  assume f: "findIndex (\<lambda>p. strict_eq (getp p ''id'') (getp u ''id'')) (payments s) = Some n"
  show "let r = payments s ! n; m = payments (fst (addPayment StoreObject s u)) ! n in
         (strict_eq (getp r ''status'') (getp u ''status'') \<longrightarrow> m = u)
       \<and> (\<not> strict_eq (getp r ''status'') (getp u ''status'') \<longrightarrow>
            m ''_statusChanged'' = Some (JBool True)
          \<and> m ''_previousStatus'' = Some (getp r ''status''))"
    by (simp add: addPayment_found[OF f] Let_def)
next
  assume f: "findIndex (\<lambda>i. strict_eq (getp i ''id'') x) (invoices s) = Some n"
  have m: "invoices (fst (updateInvoice StoreObject s x ch)) ! n = invoices s ! n ++ mark (invoices s ! n) ch"
    using findIndex_Some[OF f] by (simp add: updateInvoice_found[OF f])
  show "let r = invoices s ! n; m = invoices (fst (updateInvoice StoreObject s x ch)) ! n in
         (truthy (getp ch ''status'') \<and> \<not> strict_eq (getp r ''status'') (getp ch ''status'') \<longrightarrow>
            m ''_statusChanged'' = Some (JBool True)
          \<and> m ''_previousStatus'' = Some (getp r ''status''))
       \<and> (\<not> (truthy (getp ch ''status'')
               \<and> \<not> strict_eq (getp r ''status'') (getp ch ''status'')) \<longrightarrow> m = r ++ ch)"
    unfolding Let_def m using mark_changed[of ch "invoices s ! n"] mark_unchanged[of ch "invoices s ! n"]
    by auto
next
  assume f: "findIndex (\<lambda>p. strict_eq (getp p ''id'') x) (payments s) = Some n"
  have m: "payments (fst (updatePayment StoreObject s x ch)) ! n = payments s ! n ++ mark (payments s ! n) ch"
    using findIndex_Some[OF f] by (simp add: updatePayment_found[OF f])
  show "let r = payments s ! n; m = payments (fst (updatePayment StoreObject s x ch)) ! n in
         (truthy (getp ch ''status'') \<and> \<not> strict_eq (getp r ''status'') (getp ch ''status'') \<longrightarrow>
            m ''_statusChanged'' = Some (JBool True)
          \<and> m ''_previousStatus'' = Some (getp r ''status''))
       \<and> (\<not> (truthy (getp ch ''status'')
               \<and> \<not> strict_eq (getp r ''status'') (getp ch ''status'')) \<longrightarrow> m = r ++ ch)"
    unfolding Let_def m using mark_changed[of ch "payments s ! n"] mark_unchanged[of ch "payments s ! n"]
    by auto
qed

lemma stored_pending_find:
  "findIndex (\<lambda>i. strict_eq (getp i ''id'') (JStr ''inv1'')) (invoices stored_pending) = Some 0"
  by (simp add: stored_pending_def pending_invoice_def getp_def strict_eq_def)

text \<open>
  C2. As the repository calls them, on \<open>taprootStore.actions\<close>, \<open>updateInvoice\<close>,
  \<open>addPayment\<close> and \<open>updatePayment\<close> return at their guard and leave the store and their
  argument as they were, whatever the store holds.  So for the stored pending invoice
  \<open>inv1\<close> and the update \<open>{status: 'paid'}\<close> the record found by id keeps the status
  \<open>pending\<close> and carries neither \<open>_statusChanged\<close> nor \<open>_previousStatus\<close>, although the
  update's status differs from the stored one; the same call on the store object marks
  the merged record.
\<close>

theorem C2_update_not_merged:
  "updateInvoice ActionsObject s x ch = (s, ch)
   \<and> addPayment ActionsObject s u = (s, u)
   \<and> updatePayment ActionsObject s x ch = (s, ch)
   \<and> findIndex (\<lambda>i. strict_eq (getp i ''id'') (JStr ''inv1'')) (invoices stored_pending) = Some 0
   \<and> getp (invoices stored_pending ! 0) ''status'' = JStr ''pending''
   \<and> getp paid_changes ''status'' = JStr ''paid''
   \<and> invoices (fst (updateInvoice ActionsObject stored_pending (JStr ''inv1'') paid_changes)) ! 0
       = pending_invoice
   \<and> pending_invoice ''_statusChanged'' = None
   \<and> pending_invoice ''_previousStatus'' = None
   \<and> (invoices (fst (updateInvoice StoreObject stored_pending (JStr ''inv1'') paid_changes)) ! 0)
        ''_statusChanged'' = Some (JBool True)
   \<and> (invoices (fst (updateInvoice StoreObject stored_pending (JStr ''inv1'') paid_changes)) ! 0)
        ''_previousStatus'' = Some (JStr ''pending'')"
proof -
  have st: "getp (invoices stored_pending ! 0) ''status'' = JStr ''pending''"
    by (simp add: stored_pending_def pending_invoice_def getp_def)
  have pc: "getp paid_changes ''status'' = JStr ''paid''"
    by (simp add: paid_changes_def getp_def)
  have kept: "invoices (fst (updateInvoice ActionsObject stored_pending (JStr ''inv1'') paid_changes)) ! 0
                = pending_invoice"
    by (simp add: on_actions_object stored_pending_def)
  have none: "pending_invoice ''_statusChanged'' = None" "pending_invoice ''_previousStatus'' = None"
    by (simp_all add: pending_invoice_def)
  have d: "truthy (getp paid_changes ''status'')
           \<and> \<not> strict_eq (getp (invoices stored_pending ! 0) ''status'') (getp paid_changes ''status'')"
    by (simp add: st pc strict_eq_def)
  have m: "invoices (fst (updateInvoice StoreObject stored_pending (JStr ''inv1'') paid_changes)) ! 0
             = invoices stored_pending ! 0 ++ mark (invoices stored_pending ! 0) paid_changes"
    using findIndex_Some[OF stored_pending_find]
    by (simp add: updateInvoice_found[OF stored_pending_find])
  have marked: "(invoices (fst (updateInvoice StoreObject stored_pending (JStr ''inv1'') paid_changes)) ! 0)
                   ''_statusChanged'' = Some (JBool True)"
               "(invoices (fst (updateInvoice StoreObject stored_pending (JStr ''inv1'') paid_changes)) ! 0)
                   ''_previousStatus'' = Some (JStr ''pending'')"
    using mark_changed[OF d] by (simp_all only: m st)
  show ?thesis
    using stored_pending_find st pc kept none marked
    by (simp add: on_actions_object)
qed
subsection \<open>The channel manager: polling and reconnects\<close>

lemmas manager_defs =
  initialize_def connect_def closeAll_def connectChannel_def handleConnectionClose_def
  handleConnectionError_def scheduleReconnect_def startFallbackPolling_def
  stopFallbackPolling_def updateStoreConnectionStatus_def clearTimeout_def clearInterval_def
  all_down_def destroy_def reconnectTimerFired_def

lemma scheduleReconnect_keeps:
  "conn (scheduleReconnect m) = conn m"
  "fallbackPolling (scheduleReconnect m) = fallbackPolling m"
  "pollingInterval (scheduleReconnect m) = pollingInterval m"
  "setIntervalCalls (scheduleReconnect m) = setIntervalCalls m"
  "maxReconnectAttempts (scheduleReconnect m) = maxReconnectAttempts m"
  by (simp_all add: scheduleReconnect_def updateStoreConnectionStatus_def clearTimeout_def Let_def
               split: option.splits)

lemma startFallbackPolling_inv:
  "fallbackPolling m \<longleftrightarrow> pollingInterval m \<noteq> None \<Longrightarrow> some_down m \<Longrightarrow>
   polling_inv (startFallbackPolling m)"
  by (auto simp: polling_inv_def startFallbackPolling_def updateStoreConnectionStatus_def
                 some_down_def Let_def)

lemma all_down_some_down: "all_down m \<Longrightarrow> some_down m"
  by (simp add: all_down_def some_down_def)

lemma handleConnectionClose_inv:
  assumes "polling_inv m" shows "polling_inv (handleConnectionClose ch m)"
proof -
  let ?m1 = "m\<lparr>conn := (conn m)(ch := None)\<rparr>"
  have sd: "some_down ?m1" by (cases ch) (simp_all add: some_down_def)
  have i1: "fallbackPolling ?m1 \<longleftrightarrow> pollingInterval ?m1 \<noteq> None"
    using assms by (simp add: polling_inv_def)
  show ?thesis
  proof (cases "all_down ?m1")
    case True
    let ?m4 = "scheduleReconnect (updateStoreConnectionStatus
                      [''connected'' \<mapsto> JBool False,
                       ''reconnecting'' \<mapsto> JBool (reconnectTimeout (?m1\<lparr>connected := False\<rparr>) \<noteq> None)]
                      (?m1\<lparr>connected := False\<rparr>))"
    have "polling_inv (startFallbackPolling ?m4)"
      using i1 sd
      by (intro startFallbackPolling_inv)
         (simp_all add: scheduleReconnect_keeps updateStoreConnectionStatus_def some_down_def)
    with True show ?thesis by (simp add: handleConnectionClose_def Let_def)
  next
    case False
    with i1 sd show ?thesis by (simp add: handleConnectionClose_def Let_def polling_inv_def)
  qed
qed

lemma handleConnectionError_inv:
  assumes "polling_inv m" shows "polling_inv (handleConnectionError ch m)"
proof -
  let ?m1 = "m\<lparr>conn := (conn m)(ch := None)\<rparr>"
  have sd: "some_down ?m1" by (cases ch) (simp_all add: some_down_def)
  have i1: "fallbackPolling ?m1 \<longleftrightarrow> pollingInterval ?m1 \<noteq> None"
    using assms by (simp add: polling_inv_def)
  show ?thesis
  proof (cases "all_down ?m1")
    case True
    let ?m4 = "scheduleReconnect (updateStoreConnectionStatus
                      [''connected'' \<mapsto> JBool False, ''reconnecting'' \<mapsto> JBool True]
                      (?m1\<lparr>connected := False\<rparr>))"
    have "polling_inv (startFallbackPolling ?m4)"
      using i1 sd
      by (intro startFallbackPolling_inv)
         (simp_all add: scheduleReconnect_keeps updateStoreConnectionStatus_def some_down_def)
    with True show ?thesis by (simp add: handleConnectionError_def Let_def)
  next
    case False
    with i1 sd show ?thesis by (simp add: handleConnectionError_def Let_def polling_inv_def)
  qed
qed

lemma closeAll_props:
  "fallbackPolling (closeAll m) = False"
  "pollingInterval (closeAll m) = None"
  "conn (closeAll m) = (\<lambda>ch. None)"
  "reconnectTimeout (closeAll m) = None"
  by (simp_all add: closeAll_def stopFallbackPolling_def updateStoreConnectionStatus_def
        clearTimeout_def clearInterval_def Let_def split: option.splits)

lemma connectChannel_inv:
  assumes "connecting_inv D m" and "ch \<in> D"
  shows "connecting_inv (D - {ch}) (connectChannel ok ch m)"
proof (cases "truthy (userId m) \<and> \<not> ok ch")
  case False
  with assms show ?thesis
    by (auto simp: connectChannel_def connecting_inv_def)
next
  case True
  let ?m1 = "m\<lparr>conn := (conn m)(ch := None)\<rparr>"
  have same: "?m1 = m" using assms by (simp add: connecting_inv_def fun_upd_idem)
  show ?thesis
  proof (cases "all_down m")
    case False
    with True same assms show ?thesis
      by (auto simp: connectChannel_def handleConnectionError_def Let_def connecting_inv_def)
  next
    case ad: True
    let ?m4 = "scheduleReconnect (updateStoreConnectionStatus
                      [''connected'' \<mapsto> JBool False, ''reconnecting'' \<mapsto> JBool True]
                      (m\<lparr>connected := False\<rparr>))"
    have r: "connectChannel ok ch m = startFallbackPolling ?m4"
      using True same ad by (simp add: connectChannel_def handleConnectionError_def Let_def)
    have c: "conn ?m4 = conn m" "fallbackPolling ?m4 = fallbackPolling m"
            "pollingInterval ?m4 = pollingInterval m"
      by (simp_all add: scheduleReconnect_keeps updateStoreConnectionStatus_def)
    have "conn m ch = None" using assms by (simp add: connecting_inv_def)
    then show ?thesis using assms c unfolding r
      by (auto simp: connecting_inv_def startFallbackPolling_def updateStoreConnectionStatus_def
                     Let_def)
  qed
qed

lemma connecting_inv_done:
  assumes "connecting_inv ({ch} - {ch}) m" shows "polling_inv m"
proof -
  from assms have a: "fallbackPolling m \<longleftrightarrow> pollingInterval m \<noteq> None"
    and b: "fallbackPolling m \<longrightarrow> (\<exists>c. conn m c = None)"
    by (simp_all add: connecting_inv_def)
  have "some_down m" if "conn m c = None" for c
    using that by (cases c) (simp_all add: some_down_def)
  with a b show ?thesis by (auto simp: polling_inv_def)
qed

lemma connect_inv: "polling_inv (connect ok m)"
proof -
  let ?m2 = "(closeAll m)\<lparr>reconnectAttempts := 0\<rparr>"
  have "connecting_inv {Invoices, Payments, Balances} ?m2"
    by (simp add: connecting_inv_def closeAll_props)
  then have "connecting_inv ({Invoices, Payments, Balances} - {Invoices}) (connectChannel ok Invoices ?m2)"
    by (rule connectChannel_inv) simp
  then have "connecting_inv {Payments, Balances} (connectChannel ok Invoices ?m2)"
    by (simp add: insert_Diff_if)
  then have "connecting_inv ({Payments, Balances} - {Payments})
               (connectChannel ok Payments (connectChannel ok Invoices ?m2))"
    by (rule connectChannel_inv) simp
  then have "connecting_inv {Balances} (connectChannel ok Payments (connectChannel ok Invoices ?m2))"
    by (simp add: insert_Diff_if)
  then have "connecting_inv ({Balances} - {Balances})
               (connectChannel ok Balances (connectChannel ok Payments (connectChannel ok Invoices ?m2)))"
    by (rule connectChannel_inv) simp
  then have "polling_inv (connectChannel ok Balances (connectChannel ok Payments (connectChannel ok Invoices ?m2)))"
    by (rule connecting_inv_done)
  then show ?thesis
    by (simp add: connect_def Let_def polling_inv_def some_down_def updateStoreConnectionStatus_def)
qed

lemma closeAll_inv: "polling_inv (closeAll m)"
  by (simp add: polling_inv_def closeAll_props)

lemma step_inv:
  assumes "polling_inv m" and "enabled e m"
  shows "polling_inv (step e m)"
proof (cases e)
  case (Initialize uid ok)
  then show ?thesis using assms(1) connect_inv by (simp add: initialize_def)
next
  case (SocketOpened ch)
  then have "conn m ch = Some CONNECTING" using assms(2) by simp
  then show ?thesis using SocketOpened assms(1)
    by (auto simp: polling_inv_def some_down_def)
next
  case (TimerFired t ok)
  have "polling_inv (connect ok (m\<lparr>timers := timers m - {t}\<rparr>))" by (rule connect_inv)
  then show ?thesis using TimerFired
    by (simp add: reconnectTimerFired_def Let_def polling_inv_def some_down_def)
next
  case Destroy
  have "polling_inv (closeAll m)" by (rule closeAll_inv)
  then show ?thesis using Destroy by (simp add: destroy_def polling_inv_def some_down_def)
qed (simp_all add: assms(1) connect_inv closeAll_inv handleConnectionClose_inv
                   handleConnectionError_inv)

lemma reachable_inv: "reachable m \<Longrightarrow> polling_inv m"
proof (induction rule: reachable.induct)
  case reachable_initial
  show ?case by (simp add: polling_inv_def initial_manager_def)
next
  case (reachable_step m e)
  then show ?case by (simp add: step_inv)
qed




lemma all_down_conn: "all_down m \<longleftrightarrow> conn m = (\<lambda>ch. None)"
proof
  assume a: "all_down m"
  show "conn m = (\<lambda>ch. None)"
  proof (rule ext)
    fix ch show "conn m ch = None" using a by (cases ch) (simp_all add: all_down_def)
  qed
qed (simp add: all_down_def)




lemma reachable_run: "reachable m \<Longrightarrow> reachable (run es m)"
proof (induction es arbitrary: m)
  case Nil
  then show ?case by simp
next
  case (Cons e es)
  then show ?case by (auto intro: reachable_step)
qed

lemma not_fully_connected: "some_down m \<Longrightarrow> \<not> isFullyConnected m"
  by (auto simp: some_down_def isFullyConnected_def isConnected_def)


lemma server_lost_summary:
  "summary (run server_lost initial_manager) = (True, 1, 5, Some 1, {1}, 1, True, Some 1, 1)"
  by (simp add: summary_def server_lost_def initial_manager_def all_ok_def manager_defs Let_def)

lemma server_lost_state:
  "fallbackPolling (run server_lost initial_manager)"
  "reconnectAttempts (run server_lost initial_manager) = 1"
  "reconnectTimeout (run server_lost initial_manager) = Some 1"
  "timers (run server_lost initial_manager) = {1}"
  "maxReconnectAttempts (run server_lost initial_manager) = 5"
  "all_down (run server_lost initial_manager)"
  using server_lost_summary by (simp_all add: summary_def)








text \<open>
  C4 (as amended). In every reachable state the polling flag is true exactly when the
  polling interval is set, and while polling is active at least one channel has no
  socket, so the three channels are not all connected.
\<close>

theorem C4_polling_invariant:
  assumes "reachable m"
  shows "(fallbackPolling m \<longleftrightarrow> pollingInterval m \<noteq> None)
       \<and> (fallbackPolling m \<longrightarrow> some_down m \<and> \<not> isFullyConnected m)"
  using reachable_inv[OF assms] not_fully_connected[of m]
  by (auto simp: polling_inv_def)

theorem C4_polling_invariant_witness:
  "reachable (run server_lost initial_manager)
   \<and> fallbackPolling (run server_lost initial_manager)
   \<and> pollingInterval (run server_lost initial_manager) \<noteq> None
   \<and> \<not> isFullyConnected (run server_lost initial_manager)"
proof -
  have r: "reachable (run server_lost initial_manager)"
    by (rule reachable_run) (rule reachable_initial)
  show ?thesis
    using r C4_polling_invariant [OF r] server_lost_state(1) by simp
qed

text \<open>
  C4 as stated fails: after the three sockets have closed, polling is active although a
  reconnect retry is pending.
\<close>

theorem C4_counterexample:
  "reachable (run server_lost initial_manager)
   \<and> fallbackPolling (run server_lost initial_manager)
   \<and> reconnectTimeout (run server_lost initial_manager) = Some 1
   \<and> 1 \<in> timers (run server_lost initial_manager)
   \<and> \<not> (fallbackPolling (run server_lost initial_manager)
          \<longleftrightarrow> (\<not> isFullyConnected (run server_lost initial_manager)
               \<and> reconnectTimeout (run server_lost initial_manager) = None))"
proof -
  have r: "reachable (run server_lost initial_manager)"
    by (rule reachable_run) (rule reachable_initial)
  show ?thesis using r by (simp add: server_lost_state)
qed

subsection \<open>Filtering transactions\<close>

lemma jfilter_total:
  "(\<And>x. x \<in> set xs \<Longrightarrow> P x = Inr (p x)) \<Longrightarrow> jfilter P xs = Inr (filter p xs)"
  by (induction xs) simp_all

lemma starts_with_iff: "starts_with xs ys \<longleftrightarrow> (\<exists>b. xs = ys @ b)"
  by (induction xs ys rule: starts_with.induct) auto

lemma str_includes_iff: "str_includes s sub \<longleftrightarrow> (\<exists>a b. s = a @ sub @ b)"
proof (induction s)
  case Nil
  show ?case by auto
next
  case (Cons x xs)
  show ?case
  proof
    assume "str_includes (x # xs) sub"
    then consider "starts_with (x # xs) sub" | "str_includes xs sub" by auto
    then show "\<exists>a b. x # xs = a @ sub @ b"
    proof cases
      case 1
      then obtain b where "x # xs = sub @ b" by (auto simp: starts_with_iff)
      then have "x # xs = [] @ sub @ b" by simp
      then show ?thesis by blast
    next
      case 2
      then obtain a b where "xs = a @ sub @ b" using Cons.IH by auto
      then have "x # xs = (x # a) @ sub @ b" by simp
      then show ?thesis by blast
    qed
  next
    assume "\<exists>a b. x # xs = a @ sub @ b"
    then obtain a b where ab: "x # xs = a @ sub @ b" by auto
    show "str_includes (x # xs) sub"
    proof (cases a)
      case Nil
      with ab have "starts_with (x # xs) sub" by (auto simp: starts_with_iff)
      then show ?thesis by simp
    next
      case (Cons y ys)
      with ab have "xs = ys @ sub @ b" by simp
      then have "str_includes xs sub" using Cons.IH by blast
      then show ?thesis by simp
    qed
  qed
qed

lemma text_matches_contains:
  assumes "text_or_falsy v" and "q \<noteq> []"
  shows "text_matches v (toLowerCase q) = Inr (contains_ci v (JStr q))"
proof (cases "truthy v")
  case True
  with assms(1) obtain s where "v = JStr s" by (auto simp: text_or_falsy_def)
  then show ?thesis using True
    by (simp add: text_matches_def contains_ci_def str_includes_iff)
next
  case False
  have "\<not> contains_ci v (JStr q)"
  proof (cases v)
    case (JStr s)
    with False have "s = []" by simp
    then show ?thesis using JStr assms(2) by (simp add: contains_ci_def toLowerCase_def)
  qed (simp_all add: contains_ci_def)
  with False show ?thesis by (simp add: text_matches_def)
qed

lemma search_matches_contains:
  assumes "well_formed_tx tx" and "q \<noteq> []"
  shows "search_matches (toLowerCase q) tx =
           Inr (contains_ci (getp (the tx) ''memo'') (JStr q)
                \<or> contains_ci (getp (the tx) ''payment_hash'') (JStr q))"
proof -
  from assms(1) obtain t where t: "tx = Some t" "text_or_falsy (getp t ''memo'')"
      "text_or_falsy (getp t ''payment_hash'')"
    by (cases tx) (auto simp: well_formed_tx_def)
  show ?thesis
    by (cases "contains_ci (getp t ''memo'') (JStr q)")
       (simp_all add: search_matches_def t(1) text_matches_contains[OF t(2) assms(2)]
                  text_matches_contains[OF t(3) assms(2)])
qed

lemma date_lt_start:
  "date_lt (newDate dp c) (startOfDay tz (newDate dp f)) \<longleftrightarrow>
     (\<exists>x d. newDate dp c = Some x \<and> newDate dp f = Some d
           \<and> x < ((d + tz) div 86400000) * 86400000 - tz)"
  by (cases "newDate dp c"; cases "newDate dp f") (simp_all add: date_lt_def startOfDay_def)

lemma date_gt_end:
  "date_gt (newDate dp c) (endOfDay tz (newDate dp f)) \<longleftrightarrow>
     (\<exists>x d. newDate dp c = Some x \<and> newDate dp f = Some d
           \<and> x > ((d + tz) div 86400000) * 86400000 - tz + 86399999)"
  by (cases "newDate dp c"; cases "newDate dp f") (simp_all add: date_gt_def endOfDay_def)

lemma date_matches_range:
  "date_matches dp tz dr (Some t) =
     Inr ((from_active (Some dr) \<longrightarrow> \<not> before_from_day dp tz (Some dr) t)
        \<and> (to_active (Some dr) \<longrightarrow> \<not> after_to_day dp tz (Some dr) t))"
  by (auto simp: date_matches_def Let_def from_active_def to_active_def optp_def
                 before_from_day_def after_to_day_def date_lt_start date_gt_end)


lemma passes_filters_split:
  "tx \<noteq> None \<Longrightarrow>
   passes_filters dp tz f sd dr tx \<longleftrightarrow>
     dir_ok f tx \<and> status_ok f tx \<and> search_ok sd tx \<and> range_ok dp tz dr tx"
  by (cases tx) (auto simp: passes_filters_def dir_ok_def status_ok_def search_ok_def range_ok_def)

lemma truthy_strict_eq: "truthy b \<Longrightarrow> strict_eq a b \<longleftrightarrow> a = b"
  by (cases b) (simp_all add: strict_eq_def, auto)

lemma active_cond: "(truthy x \<and> \<not> strict_eq x (JStr ''all'')) \<longleftrightarrow> (truthy x \<and> x \<noteq> JStr ''all'')"
  by (cases x) (simp_all add: strict_eq_def)

lemma direction_cond:
  "(truthy (optp f ''direction'') \<and> \<not> strict_eq (optp f ''direction'') (JStr ''all''))
     = direction_active f"
  by (simp add: active_cond direction_active_def)

lemma direction_stage:
  assumes "\<forall>tx\<in>set xs. well_formed_tx tx"
  shows "(if truthy (optp f ''direction'') \<and> \<not> strict_eq (optp f ''direction'') (JStr ''all'')
          then jfilter (field_is ''direction'' (optp f ''direction'')) xs else Inr xs)
         = Inr (filter (dir_ok f) xs)"
proof (cases "direction_active f")
  case False
  then have "filter (dir_ok f) xs = xs" by (simp add: dir_ok_def)
  with False show ?thesis unfolding direction_cond by simp
next
  case True
  then have t: "truthy (optp f ''direction'')" by (simp add: direction_active_def)
  have "jfilter (field_is ''direction'' (optp f ''direction'')) xs = Inr (filter (dir_ok f) xs)"
  proof (rule jfilter_total)
    fix x assume "x \<in> set xs"
    with assms have "well_formed_tx x" by simp
    then obtain t' where "x = Some t'" by (cases x) (simp_all add: well_formed_tx_def)
    then show "field_is ''direction'' (optp f ''direction'') x = Inr (dir_ok f x)"
      using True by (simp add: field_is_def dir_ok_def truthy_strict_eq[OF t])
  qed
  with True show ?thesis unfolding direction_cond by simp
qed

lemma status_cond:
  "(truthy (optp f ''status'') \<and> \<not> strict_eq (optp f ''status'') (JStr ''all''))
     = status_active f"
  by (simp add: active_cond status_active_def)

lemma status_stage:
  assumes "\<forall>tx\<in>set xs. well_formed_tx tx"
  shows "(if truthy (optp f ''status'') \<and> \<not> strict_eq (optp f ''status'') (JStr ''all'')
          then jfilter (field_is ''status'' (optp f ''status'')) xs else Inr xs)
         = Inr (filter (status_ok f) xs)"
proof (cases "status_active f")
  case False
  then have "filter (status_ok f) xs = xs" by (simp add: status_ok_def)
  with False show ?thesis unfolding status_cond by simp
next
  case True
  then have t: "truthy (optp f ''status'')" by (simp add: status_active_def)
  have "jfilter (field_is ''status'' (optp f ''status'')) xs = Inr (filter (status_ok f) xs)"
  proof (rule jfilter_total)
    fix x assume "x \<in> set xs"
    with assms have "well_formed_tx x" by simp
    then obtain t' where "x = Some t'" by (cases x) (simp_all add: well_formed_tx_def)
    then show "field_is ''status'' (optp f ''status'') x = Inr (status_ok f x)"
      using True by (simp add: field_is_def status_ok_def truthy_strict_eq[OF t])
  qed
  with True show ?thesis unfolding status_cond by simp
qed

lemma search_stage:
  assumes "\<forall>tx\<in>set xs. well_formed_tx tx" and "text_or_falsy (optp sd ''searchText'')"
  shows "(if truthy (optp sd ''searchText'')
          then (case optp sd ''searchText'' of
                  JStr s \<Rightarrow> jfilter (search_matches (toLowerCase s)) xs
                | _ \<Rightarrow> Inl TypeError)
          else Inr xs)
         = Inr (filter (search_ok sd) xs)"
proof (cases "search_active sd")
  case False
  then show ?thesis by (simp add: search_active_def search_ok_def)
next
  case True
  with assms(2) obtain q where q: "optp sd ''searchText'' = JStr q" "q \<noteq> []"
    by (auto simp: search_active_def text_or_falsy_def)
  have "jfilter (search_matches (toLowerCase q)) xs = Inr (filter (search_ok sd) xs)"
  proof (rule jfilter_total)
    fix x assume "x \<in> set xs"
    with assms(1) have "well_formed_tx x" by simp
    from search_matches_contains[OF this q(2)] True
    show "search_matches (toLowerCase q) x = Inr (search_ok sd x)"
      by (simp add: search_ok_def q(1))
  qed
  with q show ?thesis by simp
qed

lemma range_stage:
  assumes "\<forall>tx\<in>set xs. well_formed_tx tx"
  shows "(case dr of
            Some d \<Rightarrow> if truthy (getp d ''from'') \<or> truthy (getp d ''to'')
                      then jfilter (date_matches dp tz d) xs else Inr xs
          | None \<Rightarrow> Inr xs)
         = Inr (filter (range_ok dp tz dr) xs)"
proof (cases dr)
  case None
  then show ?thesis by (simp add: range_ok_def from_active_def to_active_def optp_def)
next
  case (Some d)
  show ?thesis
  proof (cases "truthy (getp d ''from'') \<or> truthy (getp d ''to'')")
    case False
    then show ?thesis using Some
      by (simp add: range_ok_def from_active_def to_active_def optp_def)
  next
    case True
    have "jfilter (date_matches dp tz d) xs = Inr (filter (range_ok dp tz dr) xs)"
    proof (rule jfilter_total)
      fix x assume "x \<in> set xs"
      with assms obtain t where "x = Some t" by (cases x) (auto simp: well_formed_tx_def)
      then show "date_matches dp tz d x = Inr (range_ok dp tz dr x)"
        by (simp add: date_matches_range range_ok_def Some)
    qed
    with True Some show ?thesis by simp
  qed
qed

lemma filterTransactions_stages:
  assumes wf: "\<forall>tx\<in>set txs. well_formed_tx tx"
      and st: "text_or_falsy (optp sd ''searchText'')"
  shows "filterTransactions dp tz (Arr txs) f sd dr =
           Inr (filter (range_ok dp tz dr) (filter (search_ok sd)
                  (filter (status_ok f) (filter (dir_ok f) txs))))"
proof -
  have wf1: "\<forall>tx\<in>set (filter (dir_ok f) txs). well_formed_tx tx" using wf by simp
  have wf2: "\<forall>tx\<in>set (filter (status_ok f) (filter (dir_ok f) txs)). well_formed_tx tx"
    using wf by simp
  have wf3: "\<forall>tx\<in>set (filter (search_ok sd) (filter (status_ok f) (filter (dir_ok f) txs))).
               well_formed_tx tx"
    using wf by simp
  show ?thesis
    unfolding filterTransactions_def array_arg.case
    by (simp only: direction_stage[OF wf] and_then_def sum.case status_stage[OF wf1]
                   search_stage[OF wf2 st] range_stage[OF wf3])
qed

lemma filterTransactions_no_filter:
  assumes "\<not> direction_active f" "\<not> status_active f" "\<not> search_active sd"
          "\<not> from_active dr" "\<not> to_active dr"
  shows "filterTransactions dp tz (Arr txs) f sd dr = Inr txs"
proof -
  have "(case dr of
            Some d \<Rightarrow> if truthy (getp d ''from'') \<or> truthy (getp d ''to'')
                      then jfilter (date_matches dp tz d) txs else Inr txs
          | None \<Rightarrow> Inr txs) = Inr txs"
    using assms(4,5) by (cases dr) (simp_all add: from_active_def to_active_def optp_def)
  then show ?thesis
    unfolding filterTransactions_def array_arg.case direction_cond status_cond
    using assms(1,2,3) by (simp add: and_then_def search_active_def)
qed

text \<open>
  C5 (as amended). On a list of transaction objects whose memo and payment hash are
  strings or falsy, and with a search text that is a string or falsy, \<open>filterTransactions\<close>
  returns, in their order, exactly the transactions that pass every active filter:
  direction equality, status equality, the lower-cased search text occurring in the
  lower-cased memo or payment hash, and the two date tests, which reject a transaction
  only when its \<open>created_at\<close> is a valid date before 00:00:00.000 of the from-day or after
  23:59:59.999 of the to-day (local time).  With no active filter the input list is
  returned unchanged.
\<close>

theorem C5_filter_conjunction:
  assumes "\<forall>tx\<in>set txs. well_formed_tx tx"
      and "text_or_falsy (optp searchData ''searchText'')"
  shows "filterTransactions dp tz (Arr txs) filters' searchData dateRange =
           Inr (filter (passes_filters dp tz filters' searchData dateRange) txs)
       \<and> (\<not> direction_active filters' \<and> \<not> status_active filters' \<and> \<not> search_active searchData
            \<and> \<not> from_active dateRange \<and> \<not> to_active dateRange \<longrightarrow>
          filterTransactions dp tz (Arr txs) filters' searchData dateRange = Inr txs)"
proof -
  have nn: "\<And>x. x \<in> set txs \<Longrightarrow> x \<noteq> None"
  proof -
    fix x assume "x \<in> set txs"
    with assms(1) have "well_formed_tx x" by simp
    then show "x \<noteq> None" by (cases x) (simp_all add: well_formed_tx_def)
  qed
  have eq: "filter (range_ok dp tz dateRange) (filter (search_ok searchData)
          (filter (status_ok filters') (filter (dir_ok filters') txs)))
        = filter (passes_filters dp tz filters' searchData dateRange) txs"
    unfolding filter_filter
    by (rule filter_cong[OF refl]) (use nn in \<open>auto simp: passes_filters_split\<close>)
  have main: "filterTransactions dp tz (Arr txs) filters' searchData dateRange =
           Inr (filter (passes_filters dp tz filters' searchData dateRange) txs)"
    by (simp only: filterTransactions_stages[OF assms] eq)
  show ?thesis
  proof (intro conjI impI)
    show "filterTransactions dp tz (Arr txs) filters' searchData dateRange =
           Inr (filter (passes_filters dp tz filters' searchData dateRange) txs)"
      by (rule main)
  next
    assume "\<not> direction_active filters' \<and> \<not> status_active filters' \<and> \<not> search_active searchData
            \<and> \<not> from_active dateRange \<and> \<not> to_active dateRange"
    then show "filterTransactions dp tz (Arr txs) filters' searchData dateRange = Inr txs"
      by (intro filterTransactions_no_filter) simp_all
  qed
qed


lemma lower_examples:
  "toLowerCase ''Coffee beans'' = ''coffee beans''"
  "toLowerCase ''coffee'' = ''coffee''"
  by code_simp+

lemma example_filter_result:
  "filterTransactions example_parse 0 (Arr example_txs) (Some incoming_only)
     (Some coffee_search) (Some january)
   = Inr [Some coffee_invoice, Some undated_invoice]"
  by (simp add: filterTransactions_def example_txs_def incoming_only_def coffee_search_def
        january_def coffee_invoice_def february_invoice_def undated_invoice_def
        and_then_def optp_def getp_def strict_eq_def field_is_def search_matches_def
        text_matches_def lower_examples date_matches_def newDate_def example_parse_def
        startOfDay_def endOfDay_def date_lt_def date_gt_def Let_def)

theorem C5_filter_conjunction_witness:
  "well_formed_tx (Some coffee_invoice) \<and> well_formed_tx (Some february_invoice)
   \<and> well_formed_tx (Some undated_invoice)
   \<and> text_or_falsy (optp (Some coffee_search) ''searchText'')
   \<and> filter (passes_filters example_parse 0 (Some incoming_only) (Some coffee_search)
               (Some january)) example_txs
       = [Some coffee_invoice, Some undated_invoice]"
proof -
  have w: "\<forall>tx\<in>set example_txs. well_formed_tx tx"
    by (simp add: example_txs_def well_formed_tx_def text_or_falsy_def getp_def
                  coffee_invoice_def february_invoice_def undated_invoice_def)
  have t: "text_or_falsy (optp (Some coffee_search) ''searchText'')"
    by (simp add: text_or_falsy_def optp_def getp_def coffee_search_def)
  have "Inr (filter (passes_filters example_parse 0 (Some incoming_only) (Some coffee_search)
               (Some january)) example_txs)
        = (Inr [Some coffee_invoice, Some undated_invoice] :: js_error + obj option list)"
    using C5_filter_conjunction [OF w t, of example_parse 0 "Some incoming_only" "Some january"]
          example_filter_result
    by (simp only:)
  then have r: "filter (passes_filters example_parse 0 (Some incoming_only) (Some coffee_search)
               (Some january)) example_txs = [Some coffee_invoice, Some undated_invoice]"
    by (simp only: sum.inject)
  have w3: "well_formed_tx (Some coffee_invoice)" "well_formed_tx (Some february_invoice)"
           "well_formed_tx (Some undated_invoice)"
    using w by (simp_all add: example_txs_def)
  show ?thesis using w3 t r by blast
qed

text \<open>
  C5 as stated fails: with the January range active, a transaction without
  \<open>created_at\<close> is returned, although it has no date within the range.
\<close>

theorem C5_counterexample:
  "filterTransactions example_parse 0 (Arr [Some undated_invoice]) None None (Some january)
     = Inr [Some undated_invoice]
   \<and> newDate example_parse (getp undated_invoice ''created_at'') = None"
  by (simp add: filterTransactions_def january_def undated_invoice_def and_then_def optp_def
        getp_def strict_eq_def date_matches_def newDate_def example_parse_def
        startOfDay_def endOfDay_def date_lt_def date_gt_def Let_def)

subsection \<open>The CSV export\<close>

lemma csv_field_text: "csv_field r h = csv_text (cell r h)"
  by (simp add: csv_field_def csv_text_def)

lemma cell_of_key:
  assumes "distinct (map fst r)" and "(k, v) \<in> set r"
  shows "cell r k = v"
  using assms by (simp add: cell_def)

lemma first_row_fields:
  assumes "distinct (map fst r)"
  shows "map (csv_field r) (map fst r) = map (\<lambda>(k, v). csv_text v) r"
proof -
  have "csv_field r (fst p) = (\<lambda>(k, v). csv_text v) p" if "p \<in> set r" for p
    using that cell_of_key[OF assms, of "fst p" "snd p"]
    by (simp add: csv_field_text case_prod_beta)
  then show ?thesis by simp
qed

lemma foldl_lines:
  "foldl (\<lambda>content r. content @ f r) acc rows = acc @ concat (map f rows)"
  by (induction rows arbitrary: acc) simp_all

lemma csvContent_lines:
  "csvContent (r # rs) =
     join [comma] (map fst r) @ [newline]
     @ concat (map (\<lambda>row. join [comma] (map (csv_field row) (map fst r)) @ [newline]) (r # rs))"
  by (simp add: csvContent_def foldl_lines)

lemma first_line_append:
  assumes "newline \<notin> set a"
  shows "first_line (a @ newline # b) = a"
proof -
  have "\<And>x. x \<in> set a \<Longrightarrow> x \<noteq> newline" using assms by auto
  then have "takeWhile (\<lambda>c. c \<noteq> newline) (a @ newline # b)
               = a @ takeWhile (\<lambda>c. c \<noteq> newline) (newline # b)"
    by (rule takeWhile_append2)
  then show ?thesis by (simp add: first_line_def)
qed

lemma after_first_line_append:
  assumes "newline \<notin> set a"
  shows "after_first_line (a @ newline # b) = b"
proof -
  have "\<And>x. x \<in> set a \<Longrightarrow> x \<noteq> newline" using assms by auto
  then have "dropWhile (\<lambda>c. c \<noteq> newline) (a @ newline # b)
               = dropWhile (\<lambda>c. c \<noteq> newline) (newline # b)"
    by (rule dropWhile_append2)
  then show ?thesis by (simp add: after_first_line_def)
qed

text \<open>
  C8. For a non-empty list of rows whose first row is \<open>r\<close>, the text handed to the
  browser starts with the names of \<open>r\<close>'s fields joined by commas and a line break,
  followed by \<open>r\<close>'s values joined by commas and a line break, where a value whose text
  contains a comma, a double quote or a line break is wrapped in double quotes with
  each double quote doubled, any other value is written as it is, and \<open>undefined\<close> and
  \<open>null\<close> are written as the empty text.  When no line break occurs in the names and
  in the values, these are the first and the second line of the text.
\<close>

theorem C8_csv_first_lines:
  assumes "distinct (map fst r)"
  shows "content (downloadCSV (Some (r # rs))) = Some (csvContent (r # rs))
       \<and> csvContent (r # rs) =
           join [comma] (map fst r) @ [newline]
           @ join [comma] (map (\<lambda>(k, v). csv_text v) r) @ [newline]
           @ concat (map (\<lambda>row. join [comma] (map (csv_field row) (map fst r)) @ [newline]) rs)
       \<and> (newline \<notin> set (join [comma] (map fst r)) \<longrightarrow>
            first_line (csvContent (r # rs)) = join [comma] (map fst r))
       \<and> (newline \<notin> set (join [comma] (map fst r))
            \<and> newline \<notin> set (join [comma] (map (\<lambda>(k, v). csv_text v) r)) \<longrightarrow>
            first_line (after_first_line (csvContent (r # rs)))
              = join [comma] (map (\<lambda>(k, v). csv_text v) r))
       \<and> (\<forall>s. comma \<in> set s \<or> dquote \<in> set s \<or> newline \<in> set s \<longrightarrow>
              csv_text (JStr s) =
                [dquote] @ concat (map (\<lambda>c. if c = dquote then [dquote, dquote] else [c]) s)
                @ [dquote])
       \<and> (\<forall>s. comma \<notin> set s \<and> dquote \<notin> set s \<and> newline \<notin> set s \<longrightarrow> csv_text (JStr s) = s)
       \<and> csv_text JUndefined = [] \<and> csv_text JNull = []"
proof -
  let ?h = "join [comma] (map fst r)"
  let ?v = "join [comma] (map (\<lambda>(k, v). csv_text v) r)"
  let ?rest = "concat (map (\<lambda>row. join [comma] (map (csv_field row) (map fst r)) @ [newline]) rs)"
  have c: "csvContent (r # rs) = ?h @ [newline] @ ?v @ [newline] @ ?rest"
    by (simp only: csvContent_lines list.map concat.simps first_row_fields[OF assms]
                   append_assoc)
  have d: "content (downloadCSV (Some (r # rs))) = Some (csvContent (r # rs))"
    by (simp add: downloadCSV_def)
  have l1: "first_line (csvContent (r # rs)) = ?h" if "newline \<notin> set ?h"
    using first_line_append[OF that, of "?v @ [newline] @ ?rest"] by (simp add: c)
  have l2: "first_line (after_first_line (csvContent (r # rs))) = ?v"
    if "newline \<notin> set ?h" and "newline \<notin> set ?v"
    using after_first_line_append[OF that(1), of "?v @ [newline] @ ?rest"]
          first_line_append[OF that(2), of ?rest]
    by (simp add: c)
  have e1: "\<forall>s. comma \<in> set s \<or> dquote \<in> set s \<or> newline \<in> set s \<longrightarrow>
              csv_text (JStr s) =
                [dquote] @ concat (map (\<lambda>c. if c = dquote then [dquote, dquote] else [c]) s)
                @ [dquote]"
    by (simp add: csv_text_def)
  have e2: "\<forall>s. comma \<notin> set s \<and> dquote \<notin> set s \<and> newline \<notin> set s \<longrightarrow> csv_text (JStr s) = s"
    by (simp add: csv_text_def)
  have e3: "csv_text JUndefined = [] \<and> csv_text JNull = []"
    by (simp add: csv_text_def)
  show ?thesis using c d l1 l2 e1 e2 e3 by blast
qed

lemma example_content:
  "csvContent [example_row] =
     ''date,type,amount,asset'' @ [newline] @ ''2024-01-01,RECEIVED,10,USDT'' @ [newline]"
  by (simp add: csvContent_def example_row_def csv_field_def cell_def comma_def dquote_def
                newline_def)

lemma quoted_content:
  "csvContent [quoted_row] =
     ''memo,amount,note'' @ [newline]
     @ [dquote] @ ''say '' @ [dquote, dquote] @ ''hi'' @ [dquote, dquote] @ '', twice''
     @ [dquote] @ '',25,'' @ [newline]"
  by (simp add: csvContent_def quoted_row_def csv_field_def cell_def comma_def dquote_def
                newline_def show_int_def show_nat.simps)

theorem C8_csv_first_lines_witness:
  "distinct (map fst example_row)
   \<and> content (downloadCSV (Some [example_row]))
       = Some (''date,type,amount,asset'' @ [newline] @ ''2024-01-01,RECEIVED,10,USDT''
               @ [newline])
   \<and> first_line (csvContent [example_row]) = ''date,type,amount,asset''
   \<and> first_line (after_first_line (csvContent [example_row])) = ''2024-01-01,RECEIVED,10,USDT''"
proof -
  have d: "distinct (map fst example_row)" by (simp add: example_row_def)
  have h: "join [comma] (map fst example_row) = ''date,type,amount,asset''"
    by (simp add: example_row_def comma_def)
  have v: "join [comma] (map (\<lambda>(k, v). csv_text v) example_row) = ''2024-01-01,RECEIVED,10,USDT''"
    by (simp add: example_row_def csv_text_def comma_def dquote_def newline_def)
  have n: "newline \<notin> set ''date,type,amount,asset''"
          "newline \<notin> set ''2024-01-01,RECEIVED,10,USDT''"
    by (simp_all add: newline_def)
  show ?thesis
    using d n C8_csv_first_lines [OF d, of "[]"] unfolding h v
    by (simp add: example_content)
qed

subsection \<open>Arguments that are not arrays\<close>

lemma mapTransaction_Some:
  "snd (mapTransaction fd rt mem (Some t) ty) \<noteq> None"
  by (simp add: mapTransaction_def Let_def)

lemma map_memory_no_None:
  "None \<notin> set xs \<Longrightarrow>
   None \<notin> set (snd (map_memory (\<lambda>m x. mapTransaction fd rt m x ty) mem xs))"
proof (induction xs arbitrary: mem)
  case Nil
  show ?case by simp
next
  case (Cons x xs)
  then obtain t where t: "x = Some t" by (cases x) auto
  obtain mem1 y where f: "mapTransaction fd rt mem (Some t) ty = (mem1, y)"
    by (cases "mapTransaction fd rt mem (Some t) ty")
  have y: "y \<noteq> None" using mapTransaction_Some[of fd rt mem t ty] f by simp
  obtain mem2 ys where r: "map_memory (\<lambda>m x. mapTransaction fd rt m x ty) mem1 xs = (mem2, ys)"
    by (cases "map_memory (\<lambda>m x. mapTransaction fd rt m x ty) mem1 xs")
  have "None \<notin> set ys" using Cons.IH[of mem1] Cons.prems r by simp
  with y show ?case by (auto simp: t f r)
qed

lemma sort_by_date_total: "None \<notin> set xs \<Longrightarrow> \<exists>ys. sort_by_date dp xs = Inr ys"
  by (simp add: sort_by_date_def)

lemma combine_payments_only:
  "combineTransactions fd rt dp mem (NotArray v) (Arr ps) =
     (fst (map_memory (\<lambda>m x. mapTransaction fd rt m x (JStr ''payment'')) mem ps),
      sort_by_date dp (snd (map_memory (\<lambda>m x. mapTransaction fd rt m x (JStr ''payment'')) mem ps)))"
  by (simp add: combineTransactions_def case_prod_beta)

text \<open>
  C10. For a \<open>transactions\<close> argument that is not an array (\<open>null\<close> and \<open>undefined\<close>
  included), \<open>filterTransactions\<close> returns the empty list, whatever the filters.
  \<open>combineTransactions\<close> treats an \<open>invoices\<close> or \<open>payments\<close> argument that is not an array
  as the empty list: the result is that of the call with \<open>[]\<close> in its place, it is the
  empty list when neither argument is an array, and with an array of transaction
  objects as the other argument the call returns a list and does not throw.
\<close>

theorem C10_not_an_array:
  "filterTransactions dp tz (NotArray v) filters' searchData dateRange = Inr []
   \<and> combineTransactions fd rt dp mem (NotArray v) payments'
       = combineTransactions fd rt dp mem (Arr []) payments'
   \<and> combineTransactions fd rt dp mem invoices' (NotArray v)
       = combineTransactions fd rt dp mem invoices' (Arr [])
   \<and> combineTransactions fd rt dp mem (NotArray v) (NotArray w) = (mem, Inr [])
   \<and> (None \<notin> set ps \<longrightarrow>
        (\<exists>txs. snd (combineTransactions fd rt dp mem (NotArray v) (Arr ps)) = Inr txs))"
proof -
  have a: "filterTransactions dp tz (NotArray v) filters' searchData dateRange = Inr []"
    by (simp add: filterTransactions_def)
  have b: "combineTransactions fd rt dp mem (NotArray v) payments'
             = combineTransactions fd rt dp mem (Arr []) payments'"
    by (simp add: combineTransactions_def)
  have c: "combineTransactions fd rt dp mem invoices' (NotArray v)
             = combineTransactions fd rt dp mem invoices' (Arr [])"
    by (simp add: combineTransactions_def)
  have d: "combineTransactions fd rt dp mem (NotArray v) (NotArray w) = (mem, Inr [])"
    by (simp add: combineTransactions_def sort_by_date_def)
  have e: "\<exists>txs. snd (combineTransactions fd rt dp mem (NotArray v) (Arr ps)) = Inr txs"
    if "None \<notin> set ps"
    using sort_by_date_total[OF map_memory_no_None[OF that]]
    by (simp add: combine_payments_only)
  show ?thesis using a b c d e by blast
qed

theorem C10_not_an_array_witness:
  "None \<notin> set [Some sent_payment]
   \<and> (\<exists>txs. snd (combineTransactions (\<lambda>d. d) (\<lambda>d. d) example_parse (Map.empty, 0) (NotArray JUndefined)
                    (Arr [Some sent_payment])) = Inr txs)
   \<and> filterTransactions example_parse 0 (NotArray JNull) None None None = Inr []"
proof -
  have n: "None \<notin> set [Some sent_payment]" by simp
  show ?thesis
    using n C10_not_an_array [of example_parse 0 JNull None None None "\<lambda>d. d" "\<lambda>d. d"
                                "(Map.empty, 0)"]
          C10_not_an_array [of example_parse 0 JUndefined None None None "\<lambda>d. d" "\<lambda>d. d"
                                "(Map.empty, 0)" _ _ _ "[Some sent_payment]"]
    by blast
qed

subsection \<open>Paying: what the blocks leave unchanged\<close>

lemma remember_asset_frame:
  "calls (remember_asset a w) = calls w" "ui (remember_asset a w) = ui w"
  "w_store (remember_asset a w) = w_store w" "w_mem (remember_asset a w) = w_mem w"
  by (simp_all add: remember_asset_def Let_def split: option.splits)

lemma mapPayment_world:
  "fst (mapPayment e w p) = w\<lparr>w_mem := w_mem (fst (mapPayment e w p))\<rparr>
   \<and> snd (mapPayment e w p) \<noteq> None"
proof -
  obtain mem1 r where mt: "mapTransaction (env_formatDate e) (env_getRelativeTime e) (w_mem w)
                             (Some p) (JStr ''payment'') = (mem1, r)"
    by (cases "mapTransaction (env_formatDate e) (env_getRelativeTime e) (w_mem w)
                 (Some p) (JStr ''payment'')")
  with mapTransaction_Some[of "env_formatDate e" "env_getRelativeTime e" "w_mem w" p "JStr ''payment''"]
  obtain mapped where "r = Some mapped" by (cases r) auto
  with mt show ?thesis
    by (simp add: mapPayment_def Let_def split del: if_split)
qed

lemma mapPayment_frame:
  "calls (fst (mapPayment e w p)) = calls w" "ui (fst (mapPayment e w p)) = ui w"
  "w_store (fst (mapPayment e w p)) = w_store w"
proof -
  from mapPayment_world[of e w p]
  have eq: "fst (mapPayment e w p) = w\<lparr>w_mem := w_mem (fst (mapPayment e w p))\<rparr>" by simp
  show "calls (fst (mapPayment e w p)) = calls w" by (subst eq) simp
  show "ui (fst (mapPayment e w p)) = ui w" by (subst eq) simp
  show "w_store (fst (mapPayment e w p)) = w_store w" by (subst eq) simp
qed

lemma mapPayment_Some: "snd (mapPayment e w p) \<noteq> None"
  using mapPayment_world[of e w p] by auto

lemma deduct_balance_frame:
  "calls (deduct_balance a amt w) = calls w" "ui (deduct_balance a amt w) = ui w"
  "w_store (deduct_balance a amt w) = w_store w"
  by (simp_all add: deduct_balance_def Let_def remember_asset_frame on_actions_object)

lemma store_payment_frame:
  "calls (fst (store_payment e w p d)) = calls w" "ui (fst (store_payment e w p d)) = ui w"
  "w_store (fst (store_payment e w p d)) = w_store w"
  "snd (store_payment e w p d) = Inr d"
  using mapPayment_Some[of e w p]
  by (auto simp: store_payment_def Let_def mapPayment_frame on_actions_object
           split: option.splits)

lemma deduct_found_frame:
  "calls (case x of None \<Rightarrow> w | Some a \<Rightarrow> if c then deduct_balance a amt w else w) = calls w"
  "ui (case x of None \<Rightarrow> w | Some a \<Rightarrow> if c then deduct_balance a amt w else w) = ui w"
  "w_store (case x of None \<Rightarrow> w | Some a \<Rightarrow> if c then deduct_balance a amt w else w) = w_store w"
  by (simp_all add: deduct_balance_frame split: option.splits)

lemma processInternalPayment_frame:
  assumes "truthy (getp wallet ''adminkey'')" and "truthy (optp pd ''paymentRequest'')"
  shows "calls (fst (processInternalPayment e w (Some wallet) pd)) = calls w @ [internal_payload pd]
       \<and> ui (fst (processInternalPayment e w (Some wallet) pd)) = ui w"
proof -
  have pre: "\<not> (Some wallet = None \<or> \<not> truthy (optp (Some wallet) ''adminkey''))"
    using assms(1) by (simp add: optp_def)
  show ?thesis
  proof (cases "server e (length (calls w)) (internal_payload pd)")
    case (Rejected err)
    then show ?thesis using pre assms(2)
      by (simp add: processInternalPayment_def Let_def apiPay_def)
  next
    case (Resolved r)
    show ?thesis
    proof (cases r)
      case None
      with Resolved show ?thesis using pre assms(2)
        by (simp add: processInternalPayment_def Let_def apiPay_def)
    next
      case (Some data)
      with Resolved show ?thesis using pre assms(2)
        by (simp add: processInternalPayment_def Let_def apiPay_def store_payment_frame
                      deduct_found_frame)
    qed
  qed
qed

subsection \<open>Paying an invoice of a user of the same node\<close>

lemma payInvoice_try_rejected:
  assumes "truthy (getp wallet ''adminkey'')" and "truthy (optp pd ''paymentRequest'')"
      and "server e (length (calls w)) (pay_payload w asset pd) = Rejected err"
  shows "payInvoice_try e w (Some wallet) (Some asset) pd
           = (w\<lparr>calls := calls w @ [pay_payload w asset pd]\<rparr>, Inl err)"
  using assms
  by (simp add: payInvoice_try_def optp_def Let_def apiPay_def)

lemma payInvoice_catch_internal:
  assumes "exn_response_data err = Some rd" and "getp rd ''detail'' = JStr d"
      and "str_includes d ''internal payment'' \<or> str_includes d ''own invoice''"
  shows "payInvoice_catch err
           = err\<lparr>exn_isInternalPayment := JBool True, exn_message := JStr internal_payment_message\<rparr>"
proof -
  have "d \<noteq> []" using assms(3) by (cases d) auto
  then show ?thesis using assms by (auto simp: payInvoice_catch_def optp_def Let_def)
qed

lemma page_processInternalPayment_effect:
  assumes "wallets pg = Some (wallet # ws)"
      and "paymentDialog_selectedAsset pg = Some asset"
      and "truthy (getp wallet ''adminkey'')"
      and "truthy req"
  shows "calls (fst (fst (page_processInternalPayment e (w, pg) req fee)))
           = calls w @ [[''payment_request'' \<mapsto> req,
                         ''fee_limit_sats'' \<mapsto> js_or (js_or fee (JNum 10)) (JNum 10),
                         ''asset_id'' \<mapsto> getp asset ''asset_id'']]"
    and "\<exists>rest. ui (fst (fst (page_processInternalPayment e (w, pg) req fee))) = ui w @ rest
              \<and> (\<forall>x. ApiError x ''Payment failed'' \<notin> set rest)"
proof -
  let ?ipd = "Some [''paymentRequest'' \<mapsto> req, ''feeLimit'' \<mapsto> js_or fee (JNum 10),
                    ''assetId'' \<mapsto> getp asset ''asset_id'']"
  have ipr: "truthy (optp ?ipd ''paymentRequest'')" using assms(4) by (simp add: optp_def getp_def)
  note fr = processInternalPayment_frame[OF assms(3) ipr, of e w]
  have ip: "internal_payload ?ipd =
              [''payment_request'' \<mapsto> req,
               ''fee_limit_sats'' \<mapsto> js_or (js_or fee (JNum 10)) (JNum 10),
               ''asset_id'' \<mapsto> getp asset ''asset_id'']"
    by (simp add: internal_payload_def optp_def getp_def)
  show "calls (fst (fst (page_processInternalPayment e (w, pg) req fee)))
           = calls w @ [[''payment_request'' \<mapsto> req,
                         ''fee_limit_sats'' \<mapsto> js_or (js_or fee (JNum 10)) (JNum 10),
                         ''asset_id'' \<mapsto> getp asset ''asset_id'']]"
    using fr ip
    by (simp add: page_processInternalPayment_def Let_def assms(1,2) notifyPaymentSent_def
                  processApiError_def split: sum.splits)
  show "\<exists>rest. ui (fst (fst (page_processInternalPayment e (w, pg) req fee))) = ui w @ rest
              \<and> (\<forall>x. ApiError x ''Payment failed'' \<notin> set rest)"
    using fr
    by (simp add: page_processInternalPayment_def Let_def assms(1,2) notifyPaymentSent_def
                  processApiError_def split: sum.splits)
qed

text \<open>
  C7. When the pay call of \<open>payInvoice\<close> is rejected with an error whose
  \<open>response.data.detail\<close> is a string containing \<open>internal payment\<close> or
  \<open>own invoice\<close>, \<open>PaymentService.payInvoice\<close> throws that same error marked
  \<open>isInternalPayment = true\<close> (with the message about the internal payment), and the pay
  flow of the page then makes exactly one more call to the pay endpoint, with the payload of
  the internal-payment path; it shows the information message first and never shows the
  \<open>Payment failed\<close> error.
\<close>

theorem C7_internal_payment_fallback:
  assumes "parseDialog_invoice pg = Some invoice"
      and "paymentDialog_selectedAsset pg = Some asset"
      and "wallets pg = Some (wallet # ws)"
      and "truthy (getp wallet ''adminkey'')"
      and "truthy (getp invoice ''bolt11'')"
      and "\<forall>payload. server e (length (calls w)) payload = Rejected err"
      and "exn_response_data err = Some rd"
      and "getp rd ''detail'' = JStr d"
      and "str_includes d ''internal payment'' \<or> str_includes d ''own invoice''"
  shows "snd (payInvoice e w (Some wallet) (Some asset)
                (Some [''paymentRequest'' \<mapsto> getp invoice ''bolt11'',
                       ''feeLimit'' \<mapsto> paymentDialog_feeLimit pg]))
           = Inl (err\<lparr>exn_isInternalPayment := JBool True,
                      exn_message := JStr internal_payment_message\<rparr>)
       \<and> (\<exists>first rest.
             calls (fst (page_payInvoice e (w, pg)))
               = calls w @ [first,
                   [''payment_request'' \<mapsto> getp invoice ''bolt11'',
                    ''fee_limit_sats'' \<mapsto> js_or (js_or (paymentDialog_feeLimit pg) (JNum 10)) (JNum 10),
                    ''asset_id'' \<mapsto> getp asset ''asset_id'']]
           \<and> ui (fst (page_payInvoice e (w, pg)))
               = ui w @ InfoShown (JStr internal_payment_message) # rest
           \<and> (\<forall>x. ApiError x ''Payment failed'' \<notin> set rest))"
proof -
  let ?pd = "Some [''paymentRequest'' \<mapsto> getp invoice ''bolt11'',
                   ''feeLimit'' \<mapsto> paymentDialog_feeLimit pg]"
  let ?err = "err\<lparr>exn_isInternalPayment := JBool True, exn_message := JStr internal_payment_message\<rparr>"
  define p1 where "p1 = pay_payload w asset ?pd"
  define w2 where "w2 = w\<lparr>calls := calls w @ [p1],
                          ui := ui w @ [InfoShown (JStr internal_payment_message)]\<rparr>"
  define pg1 where "pg1 = pg\<lparr>parseDialog_show := False, paymentDialog_show := False\<rparr>"
  have pr: "truthy (optp ?pd ''paymentRequest'')" using assms(5) by (simp add: optp_def getp_def)
  have rej: "server e (length (calls w)) (pay_payload w asset ?pd) = Rejected err"
    using assms(6) by simp
  have pay: "payInvoice e w (Some wallet) (Some asset) ?pd
               = (w\<lparr>calls := calls w @ [p1]\<rparr>, Inl ?err)"
    by (simp add: payInvoice_def payInvoice_try_rejected[OF assms(4) pr rej]
                  payInvoice_catch_internal[OF assms(7,8,9)] p1_def)
  have page: "page_payInvoice e (w, pg)
                = fst (page_processInternalPayment e (w2, pg1) (getp invoice ''bolt11'')
                         (paymentDialog_feeLimit pg))"
    using assms(1,2,3) by (simp add: page_payInvoice_def pay Let_def w2_def pg1_def)
  have pg1: "wallets pg1 = Some (wallet # ws)" "paymentDialog_selectedAsset pg1 = Some asset"
    using assms(2,3) by (simp_all add: pg1_def)
  note eff = page_processInternalPayment_effect[OF pg1 assms(4,5), of e w2 "paymentDialog_feeLimit pg"]
  from eff(2) obtain rest where
    rest: "ui (fst (fst (page_processInternalPayment e (w2, pg1) (getp invoice ''bolt11'')
                           (paymentDialog_feeLimit pg)))) = ui w2 @ rest"
          "\<forall>x. ApiError x ''Payment failed'' \<notin> set rest"
    by blast
  have c: "calls (fst (page_payInvoice e (w, pg)))
             = calls w @ [p1,
                 [''payment_request'' \<mapsto> getp invoice ''bolt11'',
                  ''fee_limit_sats'' \<mapsto> js_or (js_or (paymentDialog_feeLimit pg) (JNum 10)) (JNum 10),
                  ''asset_id'' \<mapsto> getp asset ''asset_id'']]"
    by (simp add: page eff(1)) (simp add: w2_def)
  have u: "ui (fst (page_payInvoice e (w, pg)))
             = ui w @ InfoShown (JStr internal_payment_message) # rest"
    by (simp add: page rest(1)) (simp add: w2_def)
  from c u rest(2) have "\<exists>first rest.
             calls (fst (page_payInvoice e (w, pg)))
               = calls w @ [first,
                   [''payment_request'' \<mapsto> getp invoice ''bolt11'',
                    ''fee_limit_sats'' \<mapsto> js_or (js_or (paymentDialog_feeLimit pg) (JNum 10)) (JNum 10),
                    ''asset_id'' \<mapsto> getp asset ''asset_id'']]
           \<and> ui (fst (page_payInvoice e (w, pg)))
               = ui w @ InfoShown (JStr internal_payment_message) # rest
           \<and> (\<forall>x. ApiError x ''Payment failed'' \<notin> set rest)"
    by blast
  then show ?thesis using pay by simp
qed

theorem C7_internal_payment_fallback_witness:
  "truthy (getp example_wallet ''adminkey'')
   \<and> truthy (getp example_invoice ''bolt11'')
   \<and> server same_node_env (length (calls example_world)) Map.empty = Rejected own_invoice_error
   \<and> str_includes ''Cannot pay own invoice'' ''own invoice''
   \<and> snd (payInvoice same_node_env example_world (Some example_wallet) (Some held_asset)
            (Some [''paymentRequest'' \<mapsto> getp example_invoice ''bolt11'',
                   ''feeLimit'' \<mapsto> paymentDialog_feeLimit example_page]))
       = Inl (own_invoice_error\<lparr>exn_isInternalPayment := JBool True,
                                exn_message := JStr internal_payment_message\<rparr>)
   \<and> length (calls (fst (page_payInvoice same_node_env (example_world, example_page)))) = 2"
proof -
  have h1: "parseDialog_invoice example_page = Some example_invoice"
    and h2: "paymentDialog_selectedAsset example_page = Some held_asset"
    and h3: "wallets example_page = Some (example_wallet # [])"
    by (simp_all add: example_page_def)
  have h4: "truthy (getp example_wallet ''adminkey'')"
    by (simp add: example_wallet_def getp_def)
  have h5: "truthy (getp example_invoice ''bolt11'')"
    by (simp add: example_invoice_def getp_def)
  have h6: "\<forall>payload. server same_node_env (length (calls example_world)) payload
              = Rejected own_invoice_error"
    by (simp add: same_node_env_def example_world_def)
  have h7: "exn_response_data own_invoice_error = Some [''detail'' \<mapsto> JStr ''Cannot pay own invoice'']"
    by (simp add: own_invoice_error_def)
  have h8: "getp [''detail'' \<mapsto> JStr ''Cannot pay own invoice''] ''detail''
              = JStr ''Cannot pay own invoice''"
    by (simp add: getp_def)
  have i: "str_includes ''Cannot pay own invoice'' ''own invoice''"
    by simp
  then have h9: "str_includes ''Cannot pay own invoice'' ''internal payment''
                 \<or> str_includes ''Cannot pay own invoice'' ''own invoice''"
    by blast
  have c0: "calls example_world = []" by (simp add: example_world_def)
  from C7_internal_payment_fallback [OF h1 h2 h3 h4 h5 h6 h7 h8 h9]
  show ?thesis using h4 h5 h6 i c0 by auto
qed

subsection \<open>The balance after a payment\<close>

text \<open>
  What the balance update computes, and what \<open>updateAsset\<close> would write when run on the
  store object: the balance of the first asset with the id becomes the previous balance
  less the amount, and not less than zero.
\<close>

lemma balance_value:
  "toNumber (js_or bal (JNum 0)) = JNum b \<Longrightarrow> toNumber amt = JNum n
   \<Longrightarrow> max0 (js_minus (js_or bal (JNum 0)) amt) = JNum (max 0 (b - n))"
  by (simp add: max0_def js_minus_def)

lemma max0_not_negative: "max0 v = JNum n \<Longrightarrow> 0 \<le> n"
  by (auto simp: max0_def split: jsval.splits)

lemma updateAsset_with_state:
  "findIndex (\<lambda>a. strict_eq (getp a ''asset_id'') aid) (assets s) = Some i
   \<Longrightarrow> assets (updateAsset StoreObject s aid [''user_balance'' \<mapsto> v])
         = (assets s)[i := (assets s ! i)(''user_balance'' \<mapsto> v)]"
  by (simp add: updateAsset_def this_state_def)

lemma success_status:
  "strict_eq st (JStr ''success'')
   \<Longrightarrow> \<not> (\<not> truthy st \<or> strict_eq st (JStr ''failed''))"
  by (auto simp: strict_eq_def)

lemma payInvoice_try_success:
  assumes "truthy (getp wallet ''adminkey'')"
      and "truthy (optp pd ''paymentRequest'')"
      and "server e (length (calls w)) (pay_payload w asset pd) = Resolved (Some data)"
      and "strict_eq (getp data ''status'') (JStr ''success'')"
  shows "snd (payInvoice_try e w (Some wallet) (Some asset) pd) = Inr data"
  using assms success_status[OF assms(4)]
  by (simp add: payInvoice_try_def optp_def Let_def apiPay_def store_payment_frame)

lemma payInvoice_returns:
  "snd (payInvoice_try e w wl a pd) = Inr d
   \<Longrightarrow> payInvoice e w wl a pd = (fst (payInvoice_try e w wl a pd), Inr d)"
  by (cases "payInvoice_try e w wl a pd") (simp add: payInvoice_def)

lemma processInternalPayment_success:
  assumes "truthy (getp wallet ''adminkey'')"
      and "truthy (optp pd ''paymentRequest'')"
      and "server e (length (calls w)) (internal_payload pd) = Resolved (Some data)"
  shows "snd (processInternalPayment e w (Some wallet) pd) = Inr data"
  using assms
  by (simp add: processInternalPayment_def optp_def Let_def apiPay_def store_payment_frame)

text \<open>Neither pay function changes the store, whatever the backend answers.\<close>

lemma payInvoice_try_store:
  "w_store (fst (payInvoice_try e w wallet assetData pd)) = w_store w"
proof (cases assetData)
  case None
  then show ?thesis by (simp add: payInvoice_try_def)
next
  case (Some asset)
  show ?thesis
  proof (cases "server e (length (calls w)) (pay_payload w asset pd)")
    case (Rejected err)
    then show ?thesis using Some by (simp add: payInvoice_try_def Let_def apiPay_def)
  next
    case (Resolved r)
    show ?thesis
    proof (cases r)
      case None
      with Resolved Some show ?thesis by (simp add: payInvoice_try_def Let_def apiPay_def)
    next
      case data: (Some data)
      with Resolved Some show ?thesis
        by (simp add: payInvoice_try_def Let_def apiPay_def store_payment_frame
                      deduct_balance_frame)
    qed
  qed
qed

lemma payInvoice_store:
  "w_store (fst (payInvoice e w wallet assetData pd)) = w_store w"
proof (cases "payInvoice_try e w wallet assetData pd")
  case (Pair w' r)
  with payInvoice_try_store[of e w wallet assetData pd] show ?thesis
    by (cases r) (simp_all add: payInvoice_def)
qed

lemma processInternalPayment_store:
  "w_store (fst (processInternalPayment e w wallet pd)) = w_store w"
proof (cases "server e (length (calls w)) (internal_payload pd)")
  case (Rejected err)
  then show ?thesis by (simp add: processInternalPayment_def Let_def apiPay_def)
next
  case (Resolved r)
  show ?thesis
  proof (cases r)
    case None
    with Resolved show ?thesis by (simp add: processInternalPayment_def Let_def apiPay_def)
  next
    case (Some data)
    with Resolved show ?thesis
      by (simp add: processInternalPayment_def Let_def apiPay_def store_payment_frame
                    deduct_found_frame)
  qed
qed

text \<open>
  C9. Both pay functions hand the new balance to
  \<open>window.taprootStore.actions.updateAsset\<close>, which runs on the \<open>actions\<close> object and
  returns at its guard: the store is the same after the call as before, for every
  input.  So with the asset \<open>a1\<close> stored with a balance of 50 and a backend that reports
  the payment of 10 of it as successful, both functions return the response and the
  stored balance is still 50, not 40; run on the store object, \<open>updateAsset\<close> would
  have written 40.
\<close>

theorem C9_balance_not_deducted:
  "w_store (fst (payInvoice e w wallet assetData pd)) = w_store w
   \<and> w_store (fst (processInternalPayment e w wallet pd)) = w_store w
   \<and> assets (w_store example_world) = [held_asset]
   \<and> getp held_asset ''user_balance'' = JNum 50
   \<and> getp paid_response ''asset_amount'' = JNum 10
   \<and> getp paid_response ''asset_id'' = getp held_asset ''asset_id''
   \<and> snd (payInvoice (accepting_env paid_response) example_world
            (Some example_wallet) (Some held_asset) (Some pay_request)) = Inr paid_response
   \<and> assets (w_store (fst (payInvoice (accepting_env paid_response) example_world
                             (Some example_wallet) (Some held_asset) (Some pay_request))))
       = [held_asset]
   \<and> snd (processInternalPayment (accepting_env paid_response) example_world
            (Some example_wallet) (Some pay_request)) = Inr paid_response
   \<and> assets (w_store (fst (processInternalPayment (accepting_env paid_response) example_world
                             (Some example_wallet) (Some pay_request))))
       = [held_asset]
   \<and> assets (updateAsset StoreObject (w_store example_world) (getp held_asset ''asset_id'')
               [''user_balance'' \<mapsto> max0 (js_minus (js_or (getp held_asset ''user_balance'') (JNum 0))
                                                  (getp paid_response ''asset_amount''))])
       = [held_asset(''user_balance'' \<mapsto> JNum 40)]"
proof -
  have as: "assets (w_store example_world) = [held_asset]"
    by (simp add: example_world_def)
  have hub: "getp held_asset ''user_balance'' = JNum 50"
    and hid: "getp held_asset ''asset_id'' = JStr ''a1''"
    by (simp_all add: held_asset_def getp_def)
  have pam: "getp paid_response ''asset_amount'' = JNum 10"
    and pid: "getp paid_response ''asset_id'' = JStr ''a1''"
    and pst: "strict_eq (getp paid_response ''status'') (JStr ''success'')"
    by (simp_all add: paid_response_def getp_def strict_eq_def)
  have h1: "truthy (getp example_wallet ''adminkey'')"
    by (simp add: example_wallet_def getp_def)
  have h2: "truthy (optp (Some pay_request) ''paymentRequest'')"
    by (simp add: pay_request_def optp_def getp_def)
  have srv1: "server (accepting_env paid_response) (length (calls example_world))
                (pay_payload example_world held_asset (Some pay_request))
              = Resolved (Some paid_response)"
    by (simp add: accepting_env_def)
  have srv2: "server (accepting_env paid_response) (length (calls example_world))
                (internal_payload (Some pay_request))
              = Resolved (Some paid_response)"
    by (simp add: accepting_env_def)
  have ext: "snd (payInvoice (accepting_env paid_response) example_world
            (Some example_wallet) (Some held_asset) (Some pay_request)) = Inr paid_response"
    using payInvoice_try_success[OF h1 h2 srv1 pst] by (simp add: payInvoice_returns)
  have int: "snd (processInternalPayment (accepting_env paid_response) example_world
            (Some example_wallet) (Some pay_request)) = Inr paid_response"
    by (rule processInternalPayment_success[OF h1 h2 srv2])
  have fi: "findIndex (\<lambda>a. strict_eq (getp a ''asset_id'') (getp held_asset ''asset_id''))
              (assets (w_store example_world)) = Some 0"
    by (simp add: as hid strict_eq_def)
  have bal: "max0 (js_minus (js_or (getp held_asset ''user_balance'') (JNum 0))
                     (getp paid_response ''asset_amount'')) = JNum 40"
    by (simp add: hub pam js_or_def js_minus_def max0_def)
  have would: "assets (updateAsset StoreObject (w_store example_world) (getp held_asset ''asset_id'')
               [''user_balance'' \<mapsto> max0 (js_minus (js_or (getp held_asset ''user_balance'') (JNum 0))
                                                  (getp paid_response ''asset_amount''))])
       = [held_asset(''user_balance'' \<mapsto> JNum 40)]"
    by (simp only: updateAsset_with_state[OF fi] bal as) simp
  show ?thesis
    using as hub pam ext int would
    by (simp add: payInvoice_store processInternalPayment_store pid hid)
qed

end
